theory Spec2Isabelle
  imports Main "HOL-Library.Word"
begin

unbundle bit_operations_syntax

section \<open>The password-manager front end (the Vue component with the Tauri calls)\<close>

text \<open>
  The component is TypeScript. A JavaScript string is a sequence of UTF-16 code units, so
  it is modelled as a list of 16-bit words: \<open>trim\<close>, \<open>===\<close> and \<open>!s\<close> all work on code
  units. The names of the backend commands are ASCII literals and are kept as HOL strings.
\<close>

type_synonym js_string = "16 word list"

definition ascii :: "string \<Rightarrow> js_string" where
  "ascii s = map (\<lambda>c. of_nat (of_char c)) s"

subsection \<open>Data types of the component\<close>

record EncryptedData =
  ciphertext :: js_string
  nonce :: js_string
  salt :: js_string

record DecryptDialog =
  id' :: js_string
  key :: js_string
  decrypted :: js_string
  encryptedData :: "EncryptedData option"

record Password =
  id' :: js_string
  title :: js_string
  description :: js_string
  tags :: "js_string list"
  username :: js_string
  encrypted_password :: EncryptedData
  url :: "js_string option"
  created_at :: js_string
  updated_at :: js_string

record StorageMetadata =
  version :: js_string
  last_sync :: js_string
  password_count :: int

record StorageData =
  metadata :: StorageMetadata
  passwords :: "Password list"

record ErrorInfo =
  code :: int
  info :: js_string

record PasswordCreateRequest =
  title :: js_string
  description :: js_string
  tags :: "js_string list"
  username :: js_string
  password :: js_string
  url :: "js_string option"
  key :: js_string

record PasswordGeneratorConfig =
  length' :: int
  exclude_chars :: "js_string option"
  require_uppercase :: bool
  require_lowercase :: bool
  require_numbers :: bool
  require_symbols :: bool

subsection \<open>The interface declarations as data\<close>

text \<open>
  The field names of the TypeScript interfaces are what a JSON document exchanged with the
  backend must carry. Each interface is written down as the list of its fields, in the
  order of the declaration: name, whether it is optional (\<open>?\<close>), and type.
\<close>

datatype ts_type = TString | TNumber | TBoolean | TArray ts_type | TInterface string

type_synonym ts_interface = "(string \<times> bool \<times> ts_type) list"

definition EncryptedData_interface :: ts_interface where
  "EncryptedData_interface =
     [(''ciphertext'', False, TString),
      (''nonce'', False, TString),
      (''salt'', False, TString)]"

definition Password_interface :: ts_interface where
  "Password_interface =
     [(''id'', False, TString),
      (''title'', False, TString),
      (''description'', False, TString),
      (''tags'', False, TArray TString),
      (''username'', False, TString),
      (''encrypted_password'', False, TInterface ''EncryptedData''),
      (''url'', True, TString),
      (''created_at'', False, TString),
      (''updated_at'', False, TString)]"

definition StorageMetadata_interface :: ts_interface where
  "StorageMetadata_interface =
     [(''version'', False, TString),
      (''last_sync'', False, TString),
      (''password_count'', False, TNumber)]"

definition StorageData_interface :: ts_interface where
  "StorageData_interface =
     [(''metadata'', False, TInterface ''StorageMetadata''),
      (''passwords'', False, TArray (TInterface ''Password''))]"

definition field_names :: "ts_interface \<Rightarrow> string list" where
  "field_names i = map fst i"

definition field_type :: "ts_interface \<Rightarrow> string \<Rightarrow> ts_type option" where
  "field_type i n = map_option snd (map_of i n)"

subsection \<open>Calls to the backend\<close>

text \<open>
  \<open>invoke(cmd, args)\<close> returns a promise that resolves with the command's result or
  rejects with the command's error. A rejection value is taken to be either a string or an
  \<open>ErrorInfo\<close> object, the two shapes the component's handlers expect.
\<close>

datatype rejection = RejString js_string | RejErrorInfo ErrorInfo

text \<open>The template literal \<open>${e}\<close>: a string as it is, an object as \<open>[object Object]\<close>.\<close>

fun js_to_string :: "rejection \<Rightarrow> js_string" where
  "js_to_string (RejString s) = s"
| "js_to_string (RejErrorInfo ei) = ascii ''[object Object]''"

text \<open>\<open>${(e as ErrorInfo).info}\<close>: a string has no property \<open>info\<close>, which prints as \<open>undefined\<close>.\<close>

fun js_info :: "rejection \<Rightarrow> js_string" where
  "js_info (RejErrorInfo ei) = info ei"
| "js_info (RejString s) = ascii ''undefined''"

datatype invoke_args =
    NoArgs
  | StorageTargetArg js_string
  | QueryArg js_string
  | RequestArg PasswordCreateRequest
  | PasswordIdArg js_string
  | DecryptArgs EncryptedData js_string
  | ConfigArg PasswordGeneratorConfig
  | NameArg js_string

datatype invocation = Invoke (cmd: string) (args: invoke_args)

text \<open>
  The backend is the environment of the component. Each command answers with a rejection
  or with a result of the type the component declares for it, and the answer may depend on
  every call made before (the backend is stateful).
\<close>

record Backend =
  initialize_manager :: "invocation list \<Rightarrow> rejection + unit"
  get_all_passwords_from_storage :: "invocation list \<Rightarrow> js_string \<Rightarrow> rejection + StorageData"
  search_passwords :: "invocation list \<Rightarrow> js_string \<Rightarrow> rejection + Password list"
  add_password :: "invocation list \<Rightarrow> PasswordCreateRequest \<Rightarrow> rejection + unit"
  delete_password :: "invocation list \<Rightarrow> js_string \<Rightarrow> rejection + unit"
  decrypt_password :: "invocation list \<Rightarrow> EncryptedData \<Rightarrow> js_string \<Rightarrow> rejection + js_string"
  generate_password :: "invocation list \<Rightarrow> PasswordGeneratorConfig \<Rightarrow> rejection + js_string"

subsection \<open>The state of the component\<close>

text \<open>
  One field for each \<open>ref\<close> of the component, and \<open>invoked\<close>: the calls made to the
  backend so far, oldest first.
\<close>

record AppState =
  logMessages :: "js_string list"
  passwords :: "Password list"
  searchQuery :: js_string
  isLoading :: bool
  error :: js_string
  showAddForm :: bool
  newPassword :: PasswordCreateRequest
  showDecryptDialog :: bool
  decryptPassword :: DecryptDialog
  showGenerator :: bool
  generatorConfig :: PasswordGeneratorConfig
  invoked :: "invocation list"

definition emptyForm :: PasswordCreateRequest where
  "emptyForm = \<lparr> title = [], description = [], tags = [], username = [], password = [],
     url = Some [], key = [] \<rparr>"

definition initialState :: AppState where
  "initialState = \<lparr>
     logMessages = [],
     passwords = [],
     searchQuery = [],
     isLoading = False,
     error = [],
     showAddForm = False,
     newPassword = emptyForm,
     showDecryptDialog = False,
     decryptPassword = \<lparr> DecryptDialog.id' = [], key = [], decrypted = [], encryptedData = None \<rparr>,
     showGenerator = False,
     generatorConfig = \<lparr> length' = 16, exclude_chars = None, require_uppercase = True,
       require_lowercase = True, require_numbers = True, require_symbols = True \<rparr>,
     invoked = [] \<rparr>"

subsection \<open>JavaScript library functions the component uses\<close>

text \<open>
  \<open>String.prototype.trim\<close> removes white space and line terminators from both ends:
  TAB, LF, VT, FF, CR, SPACE, NBSP, the Unicode space separators (U+1680, U+2000 to
  U+200A, U+202F, U+205F, U+3000), U+2028, U+2029 and U+FEFF.
\<close>

definition js_whitespace :: "16 word \<Rightarrow> bool" where
  "js_whitespace c \<longleftrightarrow>
     c = 0x9 \<or> c = 0xA \<or> c = 0xB \<or> c = 0xC \<or> c = 0xD \<or> c = 0x20 \<or> c = 0xA0 \<or>
     c = 0x1680 \<or> (0x2000 \<le> c \<and> c \<le> 0x200A) \<or> c = 0x2028 \<or> c = 0x2029 \<or>
     c = 0x202F \<or> c = 0x205F \<or> c = 0x3000 \<or> c = 0xFEFF"

definition trim :: "js_string \<Rightarrow> js_string" where
  "trim s = rev (dropWhile js_whitespace (rev (dropWhile js_whitespace s)))"

text \<open>\<open>!s\<close> on a string: true exactly for the empty string.\<close>

definition js_not :: "js_string \<Rightarrow> bool" where
  "js_not s \<longleftrightarrow> s = []"

text \<open>\<open>Array.prototype.includes\<close>, \<open>indexOf\<close> (\<open>-1\<close> when absent), \<open>find\<close> and \<open>push\<close>.\<close>

definition js_includes :: "'a list \<Rightarrow> 'a \<Rightarrow> bool" where
  "js_includes xs x \<longleftrightarrow> x \<in> set xs"

fun indexOf :: "'a list \<Rightarrow> 'a \<Rightarrow> int" where
  "indexOf [] x = -1"
| "indexOf (y # ys) x =
     (if y = x then 0 else (let i = indexOf ys x in if i = -1 then -1 else i + 1))"

definition push :: "'a list \<Rightarrow> 'a \<Rightarrow> 'a list" where
  "push xs x = xs @ [x]"

text \<open>
  \<open>xs.splice(start, 1)\<close>: a negative \<open>start\<close> counts from the end, and the start is
  clamped to the array; one element is removed there, if there is one.
\<close>

definition splice1 :: "'a list \<Rightarrow> int \<Rightarrow> 'a list" where
  "splice1 xs start =
     (let n = int (length xs);
          k = (if start < 0 then max (n + start) 0 else min start n)
      in take (nat k) xs @ drop (nat k + 1) xs)"

text \<open>A non-negative integer in a template literal: its decimal digits.\<close>

fun js_number_to_string :: "nat \<Rightarrow> js_string" where
  "js_number_to_string n =
     (if n < 10 then [of_nat (48 + n)]
      else js_number_to_string (n div 10) @ [of_nat (48 + n mod 10)])"

declare js_number_to_string.simps [simp del]

subsection \<open>The functions of the component\<close>

text \<open>
  An \<open>async\<close> function is run to its end: each \<open>await invoke(...)\<close> asks the backend,
  records the call and continues with the answer, a rejection going to the \<open>catch\<close>
  block. \<open>console.error\<close> writes to the console only and leaves the state as it is.
\<close>

definition addLog :: "js_string \<Rightarrow> AppState \<Rightarrow> AppState" where
  "addLog msg s = s\<lparr>logMessages := push (logMessages s) msg\<rparr>"

definition called :: "string \<Rightarrow> invoke_args \<Rightarrow> AppState \<Rightarrow> AppState" where
  "called c a s = s\<lparr>invoked := invoked s @ [Invoke c a]\<rparr>"

definition loadPasswords :: "Backend \<Rightarrow> AppState \<Rightarrow> AppState" where
  "loadPasswords be s =
     (let r = get_all_passwords_from_storage be (invoked s) (ascii ''local'');
          s1 = called ''get_all_passwords_from_storage'' (StorageTargetArg (ascii ''local'')) s
      in case r of
           Inr storageData \<Rightarrow> s1\<lparr>passwords := StorageData.passwords storageData\<rparr>
         | Inl e \<Rightarrow>
             s1\<lparr>error := [0x52A0, 0x8F7D, 0x5BC6, 0x7801, 0x5931, 0x8D25, 0x3A, 0x20] @ js_to_string e,
                passwords := []\<rparr>)"

definition initializeApp :: "Backend \<Rightarrow> AppState \<Rightarrow> AppState" where
  "initializeApp be s =
     (let s1 = addLog [0x5F00, 0x59CB, 0x521D, 0x59CB, 0x5316, 0x5E94, 0x7528, 0x2E, 0x2E, 0x2E] s;
          s2 = s1\<lparr>isLoading := True, error := []\<rparr>;
          r = initialize_manager be (invoked s2);
          s3 = called ''initialize_manager'' NoArgs s2;
          s4 = (case r of
                  Inr u \<Rightarrow>
                    addLog [0x521D, 0x59CB, 0x52A0, 0x8F7D, 0x5BC6, 0x7801, 0x6210, 0x529F]
                      (loadPasswords be
                        (addLog [0x521D, 0x59CB, 0x5316, 0x7BA1, 0x7406, 0x5668, 0x6210, 0x529F] s3))
                | Inl e \<Rightarrow>
                    s3\<lparr>error := [0x521D, 0x59CB, 0x5316, 0x5931, 0x8D25, 0x3A, 0x20] @ js_info e\<rparr>)
      in s4\<lparr>isLoading := False\<rparr>)"

definition handleSearch :: "Backend \<Rightarrow> js_string \<Rightarrow> AppState \<Rightarrow> AppState" where
  "handleSearch be query s =
     (let s1 = s\<lparr>searchQuery := query\<rparr>
      in if js_not (trim query) then loadPasswords be s1
         else
           (let s2 = addLog ([0x641C, 0x7D22, 0x5BC6, 0x7801, 0x3A, 0x20] @ query) s1;
                r = search_passwords be (invoked s2) query;
                s3 = called ''search_passwords'' (QueryArg query) s2
            in case r of
                 Inr results \<Rightarrow>
                   addLog ([0x641C, 0x7D22, 0x5230, 0x20] @ js_number_to_string (length results)
                             @ [0x20, 0x6761, 0x5BC6, 0x7801])
                     (s3\<lparr>passwords := results\<rparr>)
               | Inl e \<Rightarrow>
                   s3\<lparr>error := [0x641C, 0x7D22, 0x5931, 0x8D25, 0x3A, 0x20] @ js_to_string e\<rparr>))"

definition resetForm :: "AppState \<Rightarrow> AppState" where
  "resetForm s =
     (addLog [0x91CD, 0x7F6E, 0x6DFB, 0x52A0, 0x5BC6, 0x7801, 0x8868, 0x5355] s)
       \<lparr>newPassword := emptyForm\<rparr>"

definition addPassword :: "Backend \<Rightarrow> AppState \<Rightarrow> AppState" where
  "addPassword be s =
     (if js_not (title (newPassword s)) \<or> js_not (username (newPassword s)) \<or>
         js_not (password (newPassword s)) \<or> js_not (key (newPassword s))
      then
        addLog [0x6DFB, 0x52A0, 0x5BC6, 0x7801, 0x5931, 0x8D25, 0x3A, 0x20,
                0x7F3A, 0x5C11, 0x5FC5, 0x586B, 0x5B57, 0x6BB5]
          (s\<lparr>error := [0x8BF7, 0x586B, 0x5199, 0x6240, 0x6709, 0x5FC5, 0x586B, 0x5B57, 0x6BB5]\<rparr>)
      else
        (let s1 = addLog ([0x6DFB, 0x52A0, 0x5BC6, 0x7801, 0x3A, 0x20] @ title (newPassword s)
                            @ [0x20, 0x2D, 0x20] @ username (newPassword s)) s;
             r = add_password be (invoked s1) (newPassword s1);
             s2 = called ''add_password'' (RequestArg (newPassword s1)) s1
         in case r of
              Inr u \<Rightarrow>
                loadPasswords be
                  (addLog [0x6DFB, 0x52A0, 0x5BC6, 0x7801, 0x6210, 0x529F]
                    (resetForm ((addLog (ascii ''here'') s2)\<lparr>showAddForm := False\<rparr>)))
            | Inl e \<Rightarrow>
                s2\<lparr>error := [0x6DFB, 0x52A0, 0x5BC6, 0x7801, 0x5931, 0x8D25, 0x3A, 0x20] @ js_info e\<rparr>))"

text \<open>\<open>confirmed\<close> is the user's answer to the \<open>confirm\<close> dialog.\<close>

definition deletePassword :: "Backend \<Rightarrow> js_string \<Rightarrow> bool \<Rightarrow> AppState \<Rightarrow> AppState" where
  "deletePassword be pid confirmed s =
     (if \<not> confirmed then s
      else
        (let r = delete_password be (invoked s) pid;
             s1 = called ''delete_password'' (PasswordIdArg pid) s
         in case r of
              Inr u \<Rightarrow> loadPasswords be s1
            | Inl e \<Rightarrow>
                s1\<lparr>error := [0x5220, 0x9664, 0x5BC6, 0x7801, 0x5931, 0x8D25, 0x3A, 0x20] @ js_to_string e\<rparr>))"

definition decryptPasswordFunc :: "Backend \<Rightarrow> js_string \<Rightarrow> js_string \<Rightarrow> AppState \<Rightarrow> AppState" where
  "decryptPasswordFunc be pid k s =
     (case find (\<lambda>p. Password.id' p = pid) (passwords s) of
        None \<Rightarrow> s
      | Some p \<Rightarrow>
          (let r = decrypt_password be (invoked s) (encrypted_password p) k;
               s1 = called ''decrypt_password'' (DecryptArgs (encrypted_password p) k) s
           in case r of
                Inr d \<Rightarrow>
                  s1\<lparr>decryptPassword :=
                        \<lparr> DecryptDialog.id' = pid, DecryptDialog.key = k, decrypted = d,
                          encryptedData = Some (encrypted_password p) \<rparr>,
                      showDecryptDialog := True\<rparr>
              | Inl e \<Rightarrow>
                  s1\<lparr>error := [0x89E3, 0x5BC6, 0x5BC6, 0x7801, 0x5931, 0x8D25, 0x3A, 0x20] @ js_to_string e\<rparr>))"

definition generatePassword :: "Backend \<Rightarrow> AppState \<Rightarrow> AppState" where
  "generatePassword be s =
     (let r = generate_password be (invoked s) (generatorConfig s);
          s1 = called ''generate_password'' (ConfigArg (generatorConfig s)) s
      in case r of
           Inr generated \<Rightarrow>
             s1\<lparr>newPassword := (newPassword s1)\<lparr>password := generated\<rparr>, showGenerator := False\<rparr>
         | Inl e \<Rightarrow>
             s1\<lparr>error := [0x751F, 0x6210, 0x5BC6, 0x7801, 0x5931, 0x8D25, 0x3A, 0x20] @ js_to_string e\<rparr>)"

definition addTag :: "js_string \<Rightarrow> AppState \<Rightarrow> AppState" where
  "addTag tag s =
     (if \<not> js_not tag \<and> \<not> js_includes (tags (newPassword s)) tag
      then s\<lparr>newPassword := (newPassword s)\<lparr>tags := push (tags (newPassword s)) tag\<rparr>\<rparr>
      else s)"

definition removeTag :: "js_string \<Rightarrow> AppState \<Rightarrow> AppState" where
  "removeTag tag s =
     (let index = indexOf (tags (newPassword s)) tag
      in if index > -1
         then s\<lparr>newPassword := (newPassword s)\<lparr>tags := splice1 (tags (newPassword s)) index\<rparr>\<rparr>
         else s)"

subsection \<open>The events of the template\<close>

text \<open>
  What the user can do on the page, and the handler the template binds to it. The search
  bar emits \<open>update:modelValue\<close> on input, \<open>search\<close> with its model value on Enter, and
  both with the empty string when it is cleared. The form's inputs are bound to the fields
  of \<open>newPassword\<close> other than \<open>tags\<close>; the inputs of the generator dialog are bound to
  the fields of \<open>generatorConfig\<close>.
\<close>

datatype event =
    Mounted
  | SearchInput js_string
  | SearchEnter
  | SearchClear
  | ShowAddForm bool
  | ShowGenerator bool
  | View js_string
  | Delete js_string bool
  | SetTitle js_string
  | SetDescription js_string
  | SetUsername js_string
  | SetPassword js_string
  | SetKey js_string
  | SetUrl js_string
  | SubmitForm
  | TagEnter js_string
  | TagRemove js_string
  | SetGeneratorConfig PasswordGeneratorConfig
  | Generate
  | CloseDecryptDialog

fun step :: "Backend \<Rightarrow> event \<Rightarrow> AppState \<Rightarrow> AppState" where
  "step be Mounted s = initializeApp be s"
| "step be (SearchInput v) s = s\<lparr>searchQuery := v\<rparr>"
| "step be SearchEnter s = handleSearch be (searchQuery s) s"
| "step be SearchClear s = handleSearch be [] (s\<lparr>searchQuery := []\<rparr>)"
| "step be (ShowAddForm b) s = s\<lparr>showAddForm := b\<rparr>"
| "step be (ShowGenerator b) s = s\<lparr>showGenerator := b\<rparr>"
| "step be (View pid) s = decryptPasswordFunc be pid (ascii ''your-key'') s"
| "step be (Delete pid confirmed) s = deletePassword be pid confirmed s"
| "step be (SetTitle v) s = s\<lparr>newPassword := (newPassword s)\<lparr>title := v\<rparr>\<rparr>"
| "step be (SetDescription v) s = s\<lparr>newPassword := (newPassword s)\<lparr>description := v\<rparr>\<rparr>"
| "step be (SetUsername v) s = s\<lparr>newPassword := (newPassword s)\<lparr>username := v\<rparr>\<rparr>"
| "step be (SetPassword v) s = s\<lparr>newPassword := (newPassword s)\<lparr>password := v\<rparr>\<rparr>"
| "step be (SetKey v) s = s\<lparr>newPassword := (newPassword s)\<lparr>key := v\<rparr>\<rparr>"
| "step be (SetUrl v) s = s\<lparr>newPassword := (newPassword s)\<lparr>url := Some v\<rparr>\<rparr>"
| "step be SubmitForm s = addPassword be s"
| "step be (TagEnter v) s = addTag v s"
| "step be (TagRemove v) s = removeTag v s"
| "step be (SetGeneratorConfig c) s = s\<lparr>generatorConfig := c\<rparr>"
| "step be Generate s = generatePassword be s"
| "step be CloseDecryptDialog s = s\<lparr>showDecryptDialog := False\<rparr>"

fun run :: "Backend \<Rightarrow> event list \<Rightarrow> AppState \<Rightarrow> AppState" where
  "run be [] s = s"
| "run be (ev # evs) s = run be evs (step be ev s)"

section \<open>The scaffold component \<open>App.vue\<close>\<close>

text \<open>
  \<open>App.vue\<close> holds a greeting, a name, a search query and a \<open>Data\<close> object, and calls the
  backend from \<open>greet\<close>. There is no \<open>try\<close>: when a call is rejected, so is \<open>greet\<close>, and
  the statements after the call do not run.
\<close>

record Data =
  val :: js_string
  map' :: "(int \<times> js_string) list"

record AppBackend =
  greet_command :: "invocation list \<Rightarrow> js_string \<Rightarrow> rejection + js_string"
  fetch_data :: "invocation list \<Rightarrow> rejection + Data"

record App =
  greetMsg :: js_string
  name :: js_string
  searchQuery_App :: js_string
  data :: Data
  invoked_App :: "invocation list"

definition initialApp :: App where
  "initialApp = \<lparr> greetMsg = [], name = [], searchQuery_App = [],
     data = \<lparr> val = ascii ''hello'', map' = [(1, ascii ''a''), (2, ascii ''b'')] \<rparr>,
     invoked_App = [] \<rparr>"

definition greet :: "AppBackend \<Rightarrow> App \<Rightarrow> App" where
  "greet be s =
     (let r = greet_command be (invoked_App s) (name s);
          s1 = s\<lparr>invoked_App := invoked_App s @ [Invoke ''greet'' (NameArg (name s))]\<rparr>
      in case r of
           Inl e \<Rightarrow> s1
         | Inr msg \<Rightarrow>
             (let s2 = s1\<lparr>greetMsg := msg\<rparr>;
                  r2 = fetch_data be (invoked_App s2);
                  s3 = s2\<lparr>invoked_App := invoked_App s2 @ [Invoke ''fetch_data'' NoArgs]\<rparr>
              in case r2 of
                   Inl e \<Rightarrow> s3
                 | Inr d \<Rightarrow> s3\<lparr>data := d\<rparr>))"

text \<open>\<open>handleSearch\<close> of \<open>App.vue\<close> only writes the query to the console.\<close>

definition handleSearch_App :: "js_string \<Rightarrow> App \<Rightarrow> App" where
  "handleSearch_App query s = s"

section \<open>The command surface of the specification\<close>

text \<open>The fifteen commands the specification lists for the boundary, in its order.\<close>

definition spec_command_surface :: "string list" where
  "spec_command_surface =
     [''initialize_manager'', ''add_password'', ''delete_password'', ''search_passwords'',
      ''search_passwords_in_storage'', ''get_all_passwords_from_storage'',
      ''get_password_by_id_from_storage'', ''get_storage_status'', ''sync_storages'',
      ''generate_password'', ''decrypt_password'', ''decrypt_description'', ''get_config'',
      ''update_config'', ''verify_master_password'']"

section \<open>The backend: storage orchestration and encryption\<close>

text \<open>
  The Rust backend (\<open>manager.rs\<close>, \<open>store.rs\<close>, \<open>crypto.rs\<close>) is outside the sources this
  development is built from; only the front end that calls it is inside. The definitions
  of this section follow the specification's description of the \<open>PasswordManager\<close>, the
  \<open>Storage\<close> capability, the \<open>CryptoService\<close> and the password generator.
\<close>

subsection \<open>Data model\<close>

text \<open>Modelled from the spec: a byte string.\<close>

type_synonym bytes = "8 word list"

text \<open>Modelled from the spec: the record \<open>EncryptedData\<close> of the backend, three byte strings.\<close>

record EncryptedBlob =
  blob_ciphertext :: bytes
  blob_nonce :: bytes
  blob_salt :: bytes

text \<open>Modelled from the spec: the description of an entry, plain or encrypted.\<close>

datatype entry_description = PlainText js_string | Encrypted EncryptedBlob

text \<open>Modelled from the spec: \<open>Entry\<close>, a stored credential; time stamps are numbers.\<close>

record Entry =
  entry_id :: js_string
  entry_title :: js_string
  entry_description :: entry_description
  entry_tags :: "js_string set"
  entry_username :: js_string
  encrypted_secret :: EncryptedBlob
  entry_url :: "js_string option"
  entry_created_at :: nat
  entry_updated_at :: nat

text \<open>Modelled from the spec: \<open>StorageMetadata\<close>, one per snapshot.\<close>

record SnapshotMetadata =
  meta_version :: js_string
  meta_last_sync :: nat
  entry_count :: nat

text \<open>Modelled from the spec: \<open>StorageSnapshot\<close>, the unit a backend loads and saves.\<close>

record StorageSnapshot =
  snapshot_metadata :: SnapshotMetadata
  entries :: "Entry list"

text \<open>Modelled from the spec: \<open>StorageTarget\<close>, with the wild card for every enabled backend.\<close>

datatype StorageTarget = Local | Remote | All_targets

text \<open>Modelled from the spec: the error taxonomy of the backend.\<close>

datatype manager_error =
    ValidationError
  | KeyDerivationError
  | DecryptionError
  | MalformedCiphertextError
  | StorageUnavailableError
  | ConflictError
  | NotFoundError

subsection \<open>The Storage capability\<close>

text \<open>
  Modelled from the spec: a \<open>Storage\<close> instance. It holds the snapshot its backend has
  persisted; \<open>load_failure\<close> and \<open>save_failure\<close> say whether the backend answers a load
  or a save with an error at present, and with which one.
\<close>

record Storage =
  enabled :: bool
  persisted :: StorageSnapshot
  load_failure :: "manager_error option"
  save_failure :: "manager_error option"

text \<open>Modelled from the spec: \<open>load\<close> of the \<open>Storage\<close> capability, free of side effects.\<close>

definition load :: "Storage \<Rightarrow> manager_error + StorageSnapshot" where
  "load st = (case load_failure st of Some e \<Rightarrow> Inl e | None \<Rightarrow> Inr (persisted st))"

text \<open>Modelled from the spec: \<open>save\<close> of the \<open>Storage\<close> capability, all or nothing.\<close>

definition save :: "StorageSnapshot \<Rightarrow> Storage \<Rightarrow> manager_error + Storage" where
  "save snap st = (case save_failure st of Some e \<Rightarrow> Inl e | None \<Rightarrow> Inr (st\<lparr>persisted := snap\<rparr>))"

subsection \<open>The manager\<close>

text \<open>
  Modelled from the spec: the state of the \<open>PasswordManager\<close>, a mapping from targets to
  \<open>Storage\<close> instances.
\<close>

type_synonym manager = "StorageTarget \<rightharpoonup> Storage"

text \<open>Modelled from the spec: the fixed priority order of the backends, local before remote.\<close>

definition priority_order :: "StorageTarget list" where
  "priority_order = [Local, Remote]"

text \<open>Modelled from the spec: the enabled backends, in priority order.\<close>

definition enabled_storages :: "manager \<Rightarrow> Storage list" where
  "enabled_storages m =
     List.map_filter
       (\<lambda>t. case m t of None \<Rightarrow> None | Some st \<Rightarrow> if enabled st then Some st else None)
       priority_order"

text \<open>
  Modelled from the spec: one entry merged into the view. An entry with the same id that
  is already in the view is overwritten; otherwise the entry is added.
\<close>

fun overwrite :: "Entry \<Rightarrow> Entry list \<Rightarrow> Entry list" where
  "overwrite e [] = [e]"
| "overwrite e (x # xs) = (if entry_id x = entry_id e then e # xs else x # overwrite e xs)"

text \<open>Modelled from the spec: the entries of one backend merged into the view, in order.\<close>

definition merge_entries :: "Entry list \<Rightarrow> Entry list \<Rightarrow> Entry list" where
  "merge_entries view es = foldl (\<lambda>v e. overwrite e v) view es"

text \<open>
  Modelled from the spec: the backends loaded and merged one after the other, so that a
  backend merged later wins; the error of a backend that cannot be loaded is passed on.
\<close>

fun merge_storages :: "Entry list \<Rightarrow> Storage list \<Rightarrow> manager_error + Entry list" where
  "merge_storages view [] = Inr view"
| "merge_storages view (st # sts) =
     (case load st of
        Inl e \<Rightarrow> Inl e
      | Inr snap \<Rightarrow> merge_storages (merge_entries view (entries snap)) sts)"

text \<open>
  Modelled from the spec: \<open>get_all(target)\<close> of the \<open>PasswordManager\<close>. The wild card
  merges every enabled backend by priority; a named backend gives its entries as they are.
\<close>

definition get_all :: "StorageTarget \<Rightarrow> manager \<Rightarrow> manager_error + Entry list" where
  "get_all target m =
     (if target = All_targets then merge_storages [] (enabled_storages m)
      else
        (case m target of
           None \<Rightarrow> Inl StorageUnavailableError
         | Some st \<Rightarrow>
             if enabled st then (case load st of Inl e \<Rightarrow> Inl e | Inr snap \<Rightarrow> Inr (entries snap))
             else Inl StorageUnavailableError))"

subsection \<open>Synchronisation\<close>

text \<open>
  Modelled from the spec: one entry of \<open>from\<close> written into the entries of \<open>to\<close>. It
  overwrites its counterpart only if its \<open>updated_at\<close> is strictly newer, and is added if
  it has no counterpart.
\<close>

fun sync_entry :: "Entry \<Rightarrow> Entry list \<Rightarrow> Entry list" where
  "sync_entry e [] = [e]"
| "sync_entry e (x # xs) =
     (if entry_id x = entry_id e
      then (if entry_updated_at x < entry_updated_at e then e # xs else x # xs)
      else x # sync_entry e xs)"

text \<open>Modelled from the spec: the report of a sync, here the snapshot written to \<open>to\<close>.\<close>

record SyncReport =
  report_written :: StorageSnapshot

text \<open>
  Modelled from the spec: \<open>sync_storages(from, to)\<close> of the \<open>PasswordManager\<close>. Both
  backends are loaded, the entries of \<open>from\<close> are written into those of \<open>to\<close>, and the
  result is saved to \<open>to\<close> as one snapshot. The result is the report or the error, and
  the state of the manager afterwards.
\<close>

definition sync_storages ::
  "StorageTarget \<Rightarrow> StorageTarget \<Rightarrow> manager \<Rightarrow> (manager_error + SyncReport) \<times> manager" where
  "sync_storages src dst m =
     (case (m src, m dst) of
        (Some a, Some b) \<Rightarrow>
          if enabled a \<and> enabled b then
            (case load a of
               Inl e \<Rightarrow> (Inl e, m)
             | Inr sa \<Rightarrow>
                 (case load b of
                    Inl e \<Rightarrow> (Inl e, m)
                  | Inr sb \<Rightarrow>
                      (let merged = foldl (\<lambda>v e. sync_entry e v) (entries sb) (entries sa);
                           snap = sb\<lparr>entries := merged,
                                     snapshot_metadata :=
                                       (snapshot_metadata sb)\<lparr>entry_count := length merged\<rparr>\<rparr>
                       in case save snap b of
                            Inl e \<Rightarrow> (Inl e, m)
                          | Inr b' \<Rightarrow> (Inr \<lparr> report_written = snap \<rparr>, m(dst \<mapsto> b')))))
          else (Inl StorageUnavailableError, m)
      | _ \<Rightarrow> (Inl StorageUnavailableError, m))"

subsection \<open>Adding an entry\<close>

text \<open>
  Modelled from the spec: the validation of a create request. The fields that must be
  non-empty are the ones the form marks as required: title, user name, password and key.
\<close>

definition validate_request :: "PasswordCreateRequest \<Rightarrow> manager_error + unit" where
  "validate_request request =
     (if title request = [] \<or> username request = [] \<or> password request = [] \<or> key request = []
      then Inl ValidationError else Inr ())"

text \<open>
  Modelled from the spec: what \<open>add\<close> takes from its surroundings: the \<open>CryptoService\<close>
  (given the user's key and a plaintext), the configuration switch for double encryption,
  a fresh id and the current time.
\<close>

record AddEnv =
  seal :: "js_string \<Rightarrow> js_string \<Rightarrow> manager_error + EncryptedBlob"
  double_encryption :: bool
  fresh_id :: js_string
  now :: nat

text \<open>
  Modelled from the spec: the entry written to the enabled backends, in priority order.
  A backend whose load or save fails is skipped and the failure is remembered; writes
  already made are not rolled back.
\<close>

fun write_entry :: "Entry \<Rightarrow> StorageTarget list \<Rightarrow> manager \<Rightarrow> bool \<times> manager" where
  "write_entry e [] m = (True, m)"
| "write_entry e (t # ts) m =
     (case m t of
        None \<Rightarrow> write_entry e ts m
      | Some st \<Rightarrow>
          if \<not> enabled st then write_entry e ts m
          else
            (case load st of
               Inl err \<Rightarrow> (False, snd (write_entry e ts m))
             | Inr snap \<Rightarrow>
                 (case save (snap\<lparr>entries := entries snap @ [e],
                                  snapshot_metadata :=
                                    (snapshot_metadata snap)\<lparr>entry_count := length (entries snap) + 1\<rparr>\<rparr>) st of
                    Inl err \<Rightarrow> (False, snd (write_entry e ts m))
                  | Inr st' \<Rightarrow>
                      (case write_entry e ts (m(t \<mapsto> st')) of (ok, m') \<Rightarrow> (ok, m')))))"

text \<open>
  Modelled from the spec: \<open>add(request)\<close> of the \<open>PasswordManager\<close>: validation first,
  then the encryption of the secret (and of the description under double encryption), the
  fresh id and time stamps, and the write to every enabled backend.
\<close>

definition add ::
  "AddEnv \<Rightarrow> PasswordCreateRequest \<Rightarrow> manager \<Rightarrow> (manager_error + Entry) \<times> manager" where
  "add env request m =
     (case validate_request request of
        Inl e \<Rightarrow> (Inl e, m)
      | Inr u \<Rightarrow>
          (case seal env (key request) (password request) of
             Inl e \<Rightarrow> (Inl e, m)
           | Inr secret \<Rightarrow>
               (case (if double_encryption env
                      then (case seal env (key request) (description request) of
                              Inl e \<Rightarrow> Inl e | Inr d \<Rightarrow> Inr (Encrypted d))
                      else Inr (PlainText (description request))) of
                  Inl e \<Rightarrow> (Inl e, m)
                | Inr desc \<Rightarrow>
                    (let entry = \<lparr> entry_id = fresh_id env,
                                     entry_title = title request,
                                     entry_description = desc,
                                     entry_tags = set (tags request),
                                     entry_username = username request,
                                     encrypted_secret = secret,
                                     entry_url = url request,
                                     entry_created_at = now env,
                                     entry_updated_at = now env \<rparr>
                     in case write_entry entry priority_order m of
                          (True, m') \<Rightarrow> (Inr entry, m')
                        | (False, m') \<Rightarrow> (Inl StorageUnavailableError, m')))))"

subsection \<open>The CryptoService\<close>

text \<open>Modelled from the spec: \<open>MasterKey\<close>, the derived key and the salt it was derived with.\<close>

record MasterKey =
  derived_key :: bytes
  key_salt :: bytes

text \<open>
  Modelled from the spec: the two primitives of AES-256-GCM that \<open>crypto.rs\<close> takes from
  its cipher library: the block cipher under a key, and the hash of the authentication
  tag under a hash key, over the associated data and the ciphertext. Blocks are 128 bits.
\<close>

type_synonym block = "128 word"

record Cipher =
  block_encrypt :: "bytes \<Rightarrow> block \<Rightarrow> block"
  ghash :: "block \<Rightarrow> bytes \<Rightarrow> bytes \<Rightarrow> block"

text \<open>Modelled from the spec: a block as its sixteen bytes, big end first.\<close>

definition block_bytes :: "block \<Rightarrow> bytes" where
  "block_bytes w = map (\<lambda>i. ucast (drop_bit (8 * (15 - i)) w)) [0..<16]"

text \<open>Modelled from the spec: a 32-bit counter as its four bytes, big end first.\<close>

definition counter_bytes :: "32 word \<Rightarrow> bytes" where
  "counter_bytes c = map (\<lambda>i. ucast (drop_bit (8 * (3 - i)) c)) [0..<4]"

text \<open>Modelled from the spec: the counter block of GCM for a 12-byte nonce.\<close>

definition counter_block :: "bytes \<Rightarrow> 32 word \<Rightarrow> block" where
  "counter_block iv c = word_rcat (iv @ counter_bytes c)"

text \<open>
  Modelled from the spec: the key stream of GCM's counter mode, \<open>n\<close> bytes long; the
  counter of the first block is 2, counter 1 being kept for the tag.
\<close>

definition keystream :: "Cipher \<Rightarrow> bytes \<Rightarrow> bytes \<Rightarrow> nat \<Rightarrow> bytes" where
  "keystream c k iv n =
     take n (concat (map (\<lambda>i. block_bytes (block_encrypt c k (counter_block iv (of_nat (i + 2)))))
                         [0..<(n + 15) div 16]))"

text \<open>Modelled from the spec: two byte strings combined byte by byte, as counter mode does.\<close>

definition xor_bytes :: "bytes \<Rightarrow> bytes \<Rightarrow> bytes" where
  "xor_bytes xs ys = map (\<lambda>(x, y). x XOR y) (zip xs ys)"

text \<open>
  Modelled from the spec: the authentication tag of GCM, sixteen bytes: the hash of the
  ciphertext (no associated data) under the hash key, masked with the first counter block.
\<close>

definition auth_tag :: "Cipher \<Rightarrow> bytes \<Rightarrow> bytes \<Rightarrow> bytes \<Rightarrow> bytes" where
  "auth_tag c k iv ct =
     block_bytes (ghash c (block_encrypt c k 0) [] ct XOR block_encrypt c k (counter_block iv 1))"

text \<open>
  Modelled from the spec: \<open>encrypt(key, plaintext)\<close> of the \<open>CryptoService\<close>. The nonce is
  twelve fresh random bytes, here the first twelve of the supply \<open>random\<close>; the result
  carries the ciphertext with its tag, the nonce and the salt of the key.
\<close>

definition encrypt :: "Cipher \<Rightarrow> MasterKey \<Rightarrow> (nat \<Rightarrow> 8 word) \<Rightarrow> bytes \<Rightarrow> EncryptedBlob" where
  "encrypt c mk random plaintext =
     (let nonce' = map random [0..<12];
          ct = xor_bytes plaintext (keystream c (derived_key mk) nonce' (length plaintext));
          tag = auth_tag c (derived_key mk) nonce' ct
      in \<lparr> blob_ciphertext = ct @ tag, blob_nonce = nonce', blob_salt = key_salt mk \<rparr>)"

text \<open>
  Modelled from the spec: \<open>decrypt(key, data)\<close> of the \<open>CryptoService\<close>. Data whose nonce
  is not twelve bytes or whose ciphertext is shorter than the tag is rejected before any
  decryption; a tag that does not match is a \<open>DecryptionError\<close>, and no plaintext is
  returned then.
\<close>

definition decrypt :: "Cipher \<Rightarrow> MasterKey \<Rightarrow> EncryptedBlob \<Rightarrow> manager_error + bytes" where
  "decrypt c mk data' =
     (if length (blob_nonce data') \<noteq> 12 \<or> length (blob_ciphertext data') < 16
      then Inl MalformedCiphertextError
      else
        (let n = length (blob_ciphertext data') - 16;
             ct = take n (blob_ciphertext data');
             tag = drop n (blob_ciphertext data')
         in if auth_tag c (derived_key mk) (blob_nonce data') ct \<noteq> tag
            then Inl DecryptionError
            else Inr (xor_bytes ct (keystream c (derived_key mk) (blob_nonce data') n))))"

subsection \<open>The password generator\<close>

text \<open>
  Modelled from the spec: the four character classes of the generator. The specification
  names the classes and does not list their members, so the members are a parameter.
\<close>

record CharacterClasses =
  uppercase_chars :: js_string
  lowercase_chars :: js_string
  number_chars :: js_string
  symbol_chars :: js_string

text \<open>Modelled from the spec: the characters a configuration excludes, none when the field is absent.\<close>

definition excluded :: "PasswordGeneratorConfig \<Rightarrow> js_string" where
  "excluded cfg = (case exclude_chars cfg of None \<Rightarrow> [] | Some s \<Rightarrow> s)"

text \<open>Modelled from the spec: the characters of a list that are not excluded.\<close>

definition allowed :: "PasswordGeneratorConfig \<Rightarrow> js_string \<Rightarrow> js_string" where
  "allowed cfg cs = filter (\<lambda>ch. ch \<notin> set (excluded cfg)) cs"

text \<open>Modelled from the spec: all allowed characters, those of the four classes that are not excluded.\<close>

definition pool :: "CharacterClasses \<Rightarrow> PasswordGeneratorConfig \<Rightarrow> js_string" where
  "pool cls cfg =
     allowed cfg (uppercase_chars cls @ lowercase_chars cls @ number_chars cls @ symbol_chars cls)"

text \<open>
  Modelled from the spec: a random choice from a non-empty list, \<open>random i\<close> being the
  \<open>i\<close>-th number of the random supply.
\<close>

definition pick :: "(nat \<Rightarrow> nat) \<Rightarrow> nat \<Rightarrow> 'a list \<Rightarrow> 'a" where
  "pick random i xs = xs ! (random i mod length xs)"

text \<open>Modelled from the spec: an element put into a list at a random place.\<close>

definition insert_at :: "nat \<Rightarrow> 'a \<Rightarrow> 'a list \<Rightarrow> 'a list" where
  "insert_at r x ys = take (r mod (length ys + 1)) ys @ x # drop (r mod (length ys + 1)) ys"

text \<open>Modelled from the spec: a random rearrangement of a list.\<close>

fun shuffle :: "(nat \<Rightarrow> nat) \<Rightarrow> 'a list \<Rightarrow> 'a list" where
  "shuffle random [] = []"
| "shuffle random (x # xs) = insert_at (random (length xs)) x (shuffle random xs)"

text \<open>Modelled from the spec: one character for a class, if the class is required.\<close>

definition required_pick ::
  "(nat \<Rightarrow> nat) \<Rightarrow> nat \<Rightarrow> bool \<Rightarrow> js_string \<Rightarrow> js_string" where
  "required_pick random i required cs = (if required then [pick random i cs] else [])"

text \<open>
  Modelled from the spec: the password put together from the allowed characters of the
  four classes and of all classes. The configuration is unsatisfiable, and the answer
  \<open>ValidationError\<close>, when the length is below 1 or too short for the number of required
  classes, when every character of a required class is excluded, or when all allowed
  characters are excluded. Otherwise the password has one character from each required
  class, is filled up to the length from all allowed characters, and is rearranged.
\<close>

definition assemble ::
  "(nat \<Rightarrow> nat) \<Rightarrow> PasswordGeneratorConfig \<Rightarrow> js_string \<Rightarrow> js_string \<Rightarrow> js_string \<Rightarrow> js_string \<Rightarrow>
   js_string \<Rightarrow> manager_error + js_string" where
  "assemble random cfg upper lower numbers symbols every =
     (let n = nat (length' cfg);
          required_count =
            (if require_uppercase cfg then 1 else 0) + (if require_lowercase cfg then 1 else 0) +
            (if require_numbers cfg then 1 else (0::nat)) + (if require_symbols cfg then 1 else 0)
      in if length' cfg < 1 \<or> n < required_count
            \<or> require_uppercase cfg \<and> upper = []
            \<or> require_lowercase cfg \<and> lower = []
            \<or> require_numbers cfg \<and> numbers = []
            \<or> require_symbols cfg \<and> symbols = []
            \<or> every = []
         then Inl ValidationError
         else
           Inr (shuffle (\<lambda>i. random (n + 4 + i))
                  (required_pick random 0 (require_uppercase cfg) upper @
                   required_pick random 1 (require_lowercase cfg) lower @
                   required_pick random 2 (require_numbers cfg) numbers @
                   required_pick random 3 (require_symbols cfg) symbols @
                   map (\<lambda>i. pick random (4 + i) every) [0..<n - required_count])))"

text \<open>
  Modelled from the spec: \<open>generate_password(config)\<close>, over the character classes and
  the supply of random numbers.
\<close>

definition generate ::
  "CharacterClasses \<Rightarrow> (nat \<Rightarrow> nat) \<Rightarrow> PasswordGeneratorConfig \<Rightarrow> manager_error + js_string" where
  "generate cls random cfg =
     assemble random cfg
       (allowed cfg (uppercase_chars cls)) (allowed cfg (lowercase_chars cls))
       (allowed cfg (number_chars cls)) (allowed cfg (symbol_chars cls)) (pool cls cfg)"

text \<open>
  Modelled from the spec: what the specification asks of a generated password: the
  requested length, a character of every required class, no excluded character.
\<close>

definition conforms :: "CharacterClasses \<Rightarrow> PasswordGeneratorConfig \<Rightarrow> js_string \<Rightarrow> bool" where
  "conforms cls cfg pw \<longleftrightarrow>
     int (length pw) = length' cfg \<and>
     (require_uppercase cfg \<longrightarrow> set pw \<inter> set (uppercase_chars cls) \<noteq> {}) \<and>
     (require_lowercase cfg \<longrightarrow> set pw \<inter> set (lowercase_chars cls) \<noteq> {}) \<and>
     (require_numbers cfg \<longrightarrow> set pw \<inter> set (number_chars cls) \<noteq> {}) \<and>
     (require_symbols cfg \<longrightarrow> set pw \<inter> set (symbol_chars cls) \<noteq> {}) \<and>
     set pw \<inter> set (excluded cfg) = {}"

section \<open>Auxiliary definitions and concrete inputs\<close>

text \<open>The calls a function of the component adds to the calls made before it ran.\<close>

definition new_calls :: "AppState \<Rightarrow> AppState \<Rightarrow> invocation list" where
  "new_calls s s' = drop (length (invoked s)) (invoked s')"

text \<open>The seven commands that occur in the \<open>invoke\<close> calls of the password-manager component.\<close>

definition ui_commands :: "string list" where
  "ui_commands =
     [''initialize_manager'', ''get_all_passwords_from_storage'', ''search_passwords'',
      ''add_password'', ''delete_password'', ''decrypt_password'', ''generate_password'']"

text \<open>A stored password, a backend that answers every command, and one that rejects every command.\<close>

definition demoPassword :: Password where
  "demoPassword = \<lparr>
     Password.id' = ascii ''id-1'',
     Password.title = ascii ''Bank'',
     Password.description = [],
     Password.tags = [],
     Password.username = ascii ''alice'',
     Password.encrypted_password = \<lparr> ciphertext = ascii ''c'', nonce = ascii ''n'', salt = ascii ''s'' \<rparr>,
     Password.url = None,
     Password.created_at = ascii ''2024-01-01'',
     Password.updated_at = ascii ''2024-01-02'' \<rparr>"

definition demoBackend :: Backend where
  "demoBackend = \<lparr>
     initialize_manager = (\<lambda>h. Inr ()),
     get_all_passwords_from_storage =
       (\<lambda>h t. Inr \<lparr> metadata = \<lparr> version = ascii ''1'', last_sync = ascii ''2024-01-02'',
                                   password_count = 1 \<rparr>,
                      StorageData.passwords = [demoPassword] \<rparr>),
     search_passwords = (\<lambda>h q. Inr []),
     add_password = (\<lambda>h r. Inr ()),
     delete_password = (\<lambda>h i. Inr ()),
     decrypt_password = (\<lambda>h e k. Inr (ascii ''p@ss1'')),
     generate_password = (\<lambda>h c. Inr (ascii ''Xy7!'')) \<rparr>"

definition offlineBackend :: Backend where
  "offlineBackend = \<lparr>
     initialize_manager = (\<lambda>h. Inl (RejString (ascii ''offline''))),
     get_all_passwords_from_storage = (\<lambda>h t. Inl (RejString (ascii ''offline''))),
     search_passwords = (\<lambda>h q. Inl (RejString (ascii ''offline''))),
     add_password = (\<lambda>h r. Inl (RejString (ascii ''offline''))),
     delete_password = (\<lambda>h i. Inl (RejString (ascii ''offline''))),
     decrypt_password = (\<lambda>h e k. Inl (RejString (ascii ''offline''))),
     generate_password = (\<lambda>h c. Inl (RejString (ascii ''offline''))) \<rparr>"

text \<open>The component showing one password, and the form filled in.\<close>

definition loadedState :: AppState where
  "loadedState = initialState\<lparr>passwords := [demoPassword]\<rparr>"

definition filledForm :: PasswordCreateRequest where
  "filledForm = \<lparr> title = ascii ''Bank'', description = [], tags = [], username = ascii ''alice'',
     password = ascii ''p@ss1'', url = Some [], key = ascii ''correct-key'' \<rparr>"

definition filledState :: AppState where
  "filledState = initialState\<lparr>newPassword := filledForm\<rparr>"

text \<open>A backend for \<open>App.vue\<close> that rejects \<open>greet\<close>.\<close>

definition offlineAppBackend :: AppBackend where
  "offlineAppBackend = \<lparr>
     greet_command = (\<lambda>h n. Inl (RejString (ascii ''offline''))),
     fetch_data = (\<lambda>h. Inl (RejString (ascii ''offline''))) \<rparr>"

text \<open>
  Two backends holding an entry with the same id: the local one has the newer version.
  The remote backend has a second entry that the local one lacks.
\<close>

definition demoBlob :: EncryptedBlob where
  "demoBlob = \<lparr> blob_ciphertext = [1, 2, 3], blob_nonce = [0], blob_salt = [7] \<rparr>"

definition localEntry :: Entry where
  "localEntry = \<lparr> entry_id = ascii ''X'', entry_title = ascii ''Bank'',
     entry_description = PlainText [], entry_tags = {}, entry_username = ascii ''alice'',
     encrypted_secret = demoBlob, entry_url = None,
     entry_created_at = 1, entry_updated_at = 9 \<rparr>"

definition remoteEntry :: Entry where
  "remoteEntry = \<lparr> entry_id = ascii ''X'', entry_title = ascii ''Bank (old)'',
     entry_description = PlainText [], entry_tags = {}, entry_username = ascii ''alice'',
     encrypted_secret = demoBlob, entry_url = None,
     entry_created_at = 1, entry_updated_at = 4 \<rparr>"

definition remoteOnlyEntry :: Entry where
  "remoteOnlyEntry = \<lparr> entry_id = ascii ''Y'', entry_title = ascii ''Mail'',
     entry_description = PlainText [], entry_tags = {}, entry_username = ascii ''bob'',
     encrypted_secret = demoBlob, entry_url = None,
     entry_created_at = 2, entry_updated_at = 3 \<rparr>"

definition localStorage :: Storage where
  "localStorage = \<lparr> enabled = True,
     persisted = \<lparr> snapshot_metadata = \<lparr> meta_version = ascii ''1'', meta_last_sync = 9,
                                           entry_count = 1 \<rparr>,
                   entries = [localEntry] \<rparr>,
     load_failure = None, save_failure = None \<rparr>"

definition remoteStorage :: Storage where
  "remoteStorage = \<lparr> enabled = True,
     persisted = \<lparr> snapshot_metadata = \<lparr> meta_version = ascii ''1'', meta_last_sync = 4,
                                           entry_count = 2 \<rparr>,
                   entries = [remoteOnlyEntry, remoteEntry] \<rparr>,
     load_failure = None, save_failure = None \<rparr>"

definition demoManager :: manager where
  "demoManager = [Local \<mapsto> localStorage, Remote \<mapsto> remoteStorage]"

definition demoEnv :: AddEnv where
  "demoEnv = \<lparr> seal = (\<lambda>k p. Inr demoBlob), double_encryption = False,
     fresh_id = ascii ''Z'', now = 10 \<rparr>"

text \<open>A cipher, a key and a supply of random bytes to run the \<open>CryptoService\<close> on.\<close>

definition demoCipher :: Cipher where
  "demoCipher = \<lparr>
     block_encrypt = (\<lambda>k b. (b XOR word_rcat k) * 0x9E3779B97F4A7C15F39CC0605CEDC835 + 1),
     ghash = (\<lambda>h a ct. (h + word_rcat a) * (2 * word_rcat ct + 1)) \<rparr>"

definition demoKey :: MasterKey where
  "demoKey = \<lparr> derived_key = replicate 32 7, key_salt = [1, 2, 3, 4] \<rparr>"

definition demoRandom :: "nat \<Rightarrow> 8 word" where
  "demoRandom i = of_nat (3 * i + 1)"

text \<open>
  The ASCII character classes, a supply of numbers, and the configuration of the
  specification's second scenario: length 12, symbols required, \<open>0\<close> and \<open>O\<close> excluded.
\<close>

definition asciiClasses :: CharacterClasses where
  "asciiClasses = \<lparr>
     uppercase_chars = ascii ''ABCDEFGHIJKLMNOPQRSTUVWXYZ'',
     lowercase_chars = ascii ''abcdefghijklmnopqrstuvwxyz'',
     number_chars = ascii ''0123456789'',
     symbol_chars = ascii ''!@#$%^&*()-_=+'' \<rparr>"

definition demoNumbers :: "nat \<Rightarrow> nat" where
  "demoNumbers i = 5 * i + 2"

definition scenarioConfig :: PasswordGeneratorConfig where
  "scenarioConfig = \<lparr> length' = 12, exclude_chars = Some (ascii ''0O''),
     require_uppercase = False, require_lowercase = False, require_numbers = False,
     require_symbols = True \<rparr>"

definition impossibleConfig :: PasswordGeneratorConfig where
  "impossibleConfig = \<lparr> length' = 3, exclude_chars = None,
     require_uppercase = True, require_lowercase = True, require_numbers = True,
     require_symbols = True \<rparr>"

section \<open>Properties of the front end\<close>

subsection \<open>Loading the list\<close>

lemma loadPasswords_invoked:
  "invoked (loadPasswords be s) =
     invoked s @ [Invoke ''get_all_passwords_from_storage'' (StorageTargetArg (ascii ''local''))]"
  by (simp add: loadPasswords_def called_def Let_def split: sum.splits)

lemma loadPasswords_newPassword: "newPassword (loadPasswords be s) = newPassword s"
  by (simp add: loadPasswords_def called_def Let_def split: sum.splits)

text \<open>
  Claim C9. When the call \<open>get_all_passwords_from_storage\<close> is rejected, \<open>loadPasswords\<close>
  sets the displayed list to the empty list and stores an error message, which is the
  prefix of the \<open>catch\<close> block followed by the rejection as a string, so it is not empty:
  no entry loaded before stays on display.
\<close>

theorem loadPasswords_rejected:
  "get_all_passwords_from_storage be (invoked s) (ascii ''local'') = Inl e \<Longrightarrow>
     passwords (loadPasswords be s) = [] \<and>
     error (loadPasswords be s) =
       [0x52A0, 0x8F7D, 0x5BC6, 0x7801, 0x5931, 0x8D25, 0x3A, 0x20] @ js_to_string e \<and>
     error (loadPasswords be s) \<noteq> []"
  by (simp add: loadPasswords_def called_def Let_def)

theorem loadPasswords_rejected_witness:
  "get_all_passwords_from_storage offlineBackend (invoked loadedState) (ascii ''local'')
     = Inl (RejString (ascii ''offline'')) \<and>
   passwords loadedState = [demoPassword] \<and>
   passwords (loadPasswords offlineBackend loadedState) = [] \<and>
   error (loadPasswords offlineBackend loadedState) \<noteq> []"
proof -
  have h: "get_all_passwords_from_storage offlineBackend (invoked loadedState) (ascii ''local'')
     = Inl (RejString (ascii ''offline''))"
    by (simp add: offlineBackend_def)
  from loadPasswords_rejected [OF h] h show ?thesis
    by (simp add: loadedState_def)
qed

subsection \<open>Searching\<close>

text \<open>
  Claim C8. For a query whose trimmed form is empty, \<open>handleSearch\<close> is \<open>loadPasswords\<close>
  on the state with the query stored: the only call it makes is
  \<open>get_all_passwords_from_storage\<close> for the target \<open>local\<close> (so \<open>search_passwords\<close> is not
  called), and when the call resolves the displayed list is the list of the returned
  document. Clearing the search bar is this case. For a query with other content, the only
  call is \<open>search_passwords\<close> with the query as typed, and when the call resolves the
  displayed list is the returned list.
\<close>

theorem handleSearch_dispatch:
  "(trim query = [] \<longrightarrow>
      handleSearch be query s = loadPasswords be (s\<lparr>searchQuery := query\<rparr>) \<and>
      new_calls s (handleSearch be query s) =
        [Invoke ''get_all_passwords_from_storage'' (StorageTargetArg (ascii ''local''))] \<and>
      (\<forall>d. get_all_passwords_from_storage be (invoked s) (ascii ''local'') = Inr d \<longrightarrow>
           passwords (handleSearch be query s) = StorageData.passwords d)) \<and>
   (trim query \<noteq> [] \<longrightarrow>
      new_calls s (handleSearch be query s) = [Invoke ''search_passwords'' (QueryArg query)] \<and>
      (\<forall>r. search_passwords be (invoked s) query = Inr r \<longrightarrow>
           passwords (handleSearch be query s) = r)) \<and>
   step be SearchClear s = loadPasswords be (s\<lparr>searchQuery := []\<rparr>)"
  by (auto simp add: handleSearch_def js_not_def trim_def new_calls_def loadPasswords_def
      called_def addLog_def Let_def split: sum.splits)

theorem handleSearch_dispatch_witness:
  "trim [0x20, 0x3000] = [] \<and>
   new_calls initialState (handleSearch demoBackend [0x20, 0x3000] initialState) =
     [Invoke ''get_all_passwords_from_storage'' (StorageTargetArg (ascii ''local''))] \<and>
   passwords (handleSearch demoBackend [0x20, 0x3000] initialState) = [demoPassword] \<and>
   trim [0x20, 0x61] \<noteq> [] \<and>
   new_calls loadedState (handleSearch demoBackend [0x20, 0x61] loadedState) =
     [Invoke ''search_passwords'' (QueryArg [0x20, 0x61])] \<and>
   passwords (handleSearch demoBackend [0x20, 0x61] loadedState) = []"
proof -
  have blank: "trim [0x20, 0x3000] = []"
    by (simp add: trim_def js_whitespace_def)
  have other: "trim [0x20, 0x61] \<noteq> []"
    by (simp add: trim_def js_whitespace_def)
  have d: "get_all_passwords_from_storage demoBackend (invoked initialState) (ascii ''local'') =
      Inr \<lparr> metadata = \<lparr> version = ascii ''1'', last_sync = ascii ''2024-01-02'',
                           password_count = 1 \<rparr>,
             StorageData.passwords = [demoPassword] \<rparr>"
    by (simp add: demoBackend_def)
  have r: "search_passwords demoBackend (invoked loadedState) [0x20, 0x61] = Inr []"
    by (simp add: demoBackend_def)
  from handleSearch_dispatch [of "[0x20, 0x3000]" demoBackend initialState] blank d
  have "new_calls initialState (handleSearch demoBackend [0x20, 0x3000] initialState) =
     [Invoke ''get_all_passwords_from_storage'' (StorageTargetArg (ascii ''local''))] \<and>
   passwords (handleSearch demoBackend [0x20, 0x3000] initialState) = [demoPassword]"
    by (metis StorageData.select_convs(2))
  moreover from handleSearch_dispatch [of "[0x20, 0x61]" demoBackend loadedState] other r
  have "new_calls loadedState (handleSearch demoBackend [0x20, 0x61] loadedState) =
     [Invoke ''search_passwords'' (QueryArg [0x20, 0x61])] \<and>
   passwords (handleSearch demoBackend [0x20, 0x61] loadedState) = []"
    by blast
  ultimately show ?thesis using blank other by simp
qed

subsection \<open>The tag list of the form\<close>

lemma indexOf_absent: "x \<notin> set xs \<Longrightarrow> indexOf xs x = - 1"
  by (induction xs) (auto simp: Let_def)

lemma indexOf_present: "x \<in> set xs \<Longrightarrow> 0 \<le> indexOf xs x \<and> indexOf xs x < int (length xs)"
proof (induction xs)
  case Nil
  then show ?case by simp
next
  case (Cons y ys)
  show ?case
  proof (cases "y = x")
    case True
    then show ?thesis by simp
  next
    case False
    with Cons.prems have "x \<in> set ys" by simp
    from Cons.IH [OF this] False show ?thesis by (simp add: Let_def)
  qed
qed

text \<open>Removing one element at the index \<open>indexOf\<close> removes the first occurrence.\<close>

lemma splice1_indexOf: "x \<in> set xs \<Longrightarrow> splice1 xs (indexOf xs x) = remove1 x xs"
proof (induction xs)
  case Nil
  then show ?case by simp
next
  case (Cons y ys)
  show ?case
  proof (cases "y = x")
    case True
    then show ?thesis by (simp add: splice1_def)
  next
    case False
    with Cons.prems have mem: "x \<in> set ys" by simp
    from indexOf_present [OF mem]
    have b: "0 \<le> indexOf ys x" "indexOf ys x < int (length ys)"
      by simp_all
    from b have n: "nat (indexOf ys x + 1) = Suc (nat (indexOf ys x))" by simp
    from Cons.IH [OF mem] b
    have "take (nat (indexOf ys x)) ys @ drop (Suc (nat (indexOf ys x))) ys = remove1 x ys"
      by (simp add: splice1_def Let_def min_def)
    with False b n show ?thesis
      by (simp add: splice1_def Let_def min_def)
  qed
qed

lemma removeTag_tags: "tags (newPassword (removeTag tag s)) = remove1 tag (tags (newPassword s))"
proof (cases "tag \<in> set (tags (newPassword s))")
  case True
  with indexOf_present [OF True] splice1_indexOf [OF True] show ?thesis
    by (simp add: removeTag_def Let_def)
next
  case False
  with indexOf_absent [OF False] show ?thesis
    by (simp add: removeTag_def Let_def remove1_idem)
qed

lemma removeTag_absent: "tag \<notin> set (tags (newPassword s)) \<Longrightarrow> removeTag tag s = s"
  by (simp add: removeTag_def Let_def indexOf_absent)

lemma addTag_tags:
  "tags (newPassword (addTag tag s)) =
     (if tag \<noteq> [] \<and> tag \<notin> set (tags (newPassword s))
      then tags (newPassword s) @ [tag] else tags (newPassword s))"
  by (simp add: addTag_def js_not_def js_includes_def push_def)

lemma addTag_present: "tag \<in> set (tags (newPassword s)) \<Longrightarrow> addTag tag s = s"
  by (simp add: addTag_def js_includes_def)

lemma addTag_idem: "addTag tag (addTag tag s) = addTag tag s"
  by (simp add: addTag_def js_not_def js_includes_def push_def)

text \<open>What an event can do to the tag list: nothing, empty it, add a tag, remove a tag.\<close>

lemma step_tags:
  "tags (newPassword (step be ev s)) = tags (newPassword s) \<or>
   tags (newPassword (step be ev s)) = [] \<or>
   (\<exists>t. tags (newPassword (step be ev s)) = tags (newPassword (addTag t s))) \<or>
   (\<exists>t. tags (newPassword (step be ev s)) = remove1 t (tags (newPassword s)))"
proof (cases ev)
  case Mounted
  then show ?thesis
    by (simp add: initializeApp_def loadPasswords_newPassword addLog_def called_def Let_def
        split: sum.splits)
next
  case SearchEnter
  then show ?thesis
    by (simp add: handleSearch_def loadPasswords_newPassword addLog_def called_def Let_def
        split: sum.splits)
next
  case SearchClear
  then show ?thesis
    by (simp add: handleSearch_def loadPasswords_newPassword addLog_def called_def Let_def
        split: sum.splits)
next
  case (View pid)
  then show ?thesis
    by (simp add: decryptPasswordFunc_def called_def Let_def split: sum.splits option.splits)
next
  case (Delete pid c)
  then show ?thesis
    by (simp add: deletePassword_def loadPasswords_newPassword called_def Let_def
        split: sum.splits)
next
  case SubmitForm
  then show ?thesis
    by (simp add: addPassword_def loadPasswords_newPassword resetForm_def emptyForm_def
        addLog_def called_def Let_def split: sum.splits)
next
  case (TagEnter t)
  then show ?thesis by auto
next
  case (TagRemove t)
  then show ?thesis by (auto simp: removeTag_tags)
next
  case Generate
  then show ?thesis
    by (simp add: generatePassword_def called_def Let_def split: sum.splits)
qed simp_all

lemma step_tags_ok:
  assumes "distinct (tags (newPassword s)) \<and> [] \<notin> set (tags (newPassword s))"
  shows "distinct (tags (newPassword (step be ev s))) \<and>
         [] \<notin> set (tags (newPassword (step be ev s)))"
  using step_tags [of be ev s] assms
  by (auto simp: addTag_tags split: if_splits dest: notin_set_remove1)

lemma run_tags_ok:
  "distinct (tags (newPassword s)) \<and> [] \<notin> set (tags (newPassword s)) \<Longrightarrow>
   distinct (tags (newPassword (run be evs s))) \<and> [] \<notin> set (tags (newPassword (run be evs s)))"
proof (induction evs arbitrary: s)
  case Nil
  then show ?case by simp
next
  case (Cons ev evs)
  from step_tags_ok [OF Cons.prems]
  have "distinct (tags (newPassword (step be ev s))) \<and>
        [] \<notin> set (tags (newPassword (step be ev s)))" .
  from Cons.IH [OF this] show ?case by simp
qed

text \<open>
  Claim C10. After any sequence of events from the initial state, the tag list of the
  pending request has no duplicate and does not hold the empty string. \<open>addTag\<close> appends
  the tag exactly when it is not empty and not in the list, changes nothing when the tag
  is in the list, and is idempotent. \<open>removeTag\<close> removes the first occurrence of the
  tag, one element, and changes nothing when the tag is not in the list.
\<close>

theorem tags_distinct_nonempty:
  "distinct (tags (newPassword (run be evs initialState))) \<and>
   [] \<notin> set (tags (newPassword (run be evs initialState))) \<and>
   tags (newPassword (addTag tag s)) =
     (if tag \<noteq> [] \<and> tag \<notin> set (tags (newPassword s))
      then tags (newPassword s) @ [tag] else tags (newPassword s)) \<and>
   (tag \<in> set (tags (newPassword s)) \<longrightarrow> addTag tag s = s) \<and>
   addTag tag (addTag tag s) = addTag tag s \<and>
   tags (newPassword (removeTag tag s)) = remove1 tag (tags (newPassword s)) \<and>
   (tag \<in> set (tags (newPassword s)) \<longrightarrow>
      length (tags (newPassword (removeTag tag s))) + 1 = length (tags (newPassword s))) \<and>
   (tag \<notin> set (tags (newPassword s)) \<longrightarrow> removeTag tag s = s)"
proof -
  have "distinct (tags (newPassword initialState)) \<and> [] \<notin> set (tags (newPassword initialState))"
    by (simp add: initialState_def emptyForm_def)
  from run_tags_ok [OF this, of be evs]
  have inv: "distinct (tags (newPassword (run be evs initialState)))"
    "[] \<notin> set (tags (newPassword (run be evs initialState)))"
    by simp_all
  have len: "length (tags (newPassword (removeTag tag s))) + 1 = length (tags (newPassword s))"
    if "tag \<in> set (tags (newPassword s))"
  proof -
    from that have "0 < length (tags (newPassword s))" by (cases "tags (newPassword s)") simp_all
    with that show ?thesis by (simp add: removeTag_tags length_remove1)
  qed
  from inv len show ?thesis
    using addTag_tags [of tag s] addTag_present [of tag s] addTag_idem [of tag s]
      removeTag_tags [of tag s] removeTag_absent [of tag s]
    by simp
qed

theorem tags_distinct_nonempty_witness:
  "tags (newPassword (run demoBackend
      [TagEnter [0x61], TagEnter [0x61], TagEnter [], TagEnter [0x62], TagRemove [0x63]]
      initialState)) = [[0x61], [0x62]] \<and>
   distinct (tags (newPassword (run demoBackend
      [TagEnter [0x61], TagEnter [0x61], TagEnter [], TagEnter [0x62], TagRemove [0x63]]
      initialState))) \<and>
   [0x61] \<in> set (tags (newPassword (addTag [0x61] initialState))) \<and>
   addTag [0x61] (addTag [0x61] initialState) = addTag [0x61] initialState \<and>
   length (tags (newPassword (removeTag [0x61] (addTag [0x61] initialState)))) + 1 =
     length (tags (newPassword (addTag [0x61] initialState))) \<and>
   [0x63] \<notin> set (tags (newPassword initialState)) \<and>
   removeTag [0x63] initialState = initialState"
proof -
  have mem: "[0x61] \<in> set (tags (newPassword (addTag [0x61] initialState)))"
    by (simp add: addTag_def js_not_def js_includes_def push_def initialState_def emptyForm_def)
  have absent: "[0x63] \<notin> set (tags (newPassword initialState))"
    by (simp add: initialState_def emptyForm_def)
  have run: "tags (newPassword (run demoBackend
      [TagEnter [0x61], TagEnter [0x61], TagEnter [], TagEnter [0x62], TagRemove [0x63]]
      initialState)) = [[0x61], [0x62]]"
    by (simp add: addTag_def removeTag_def js_not_def js_includes_def push_def Let_def
        initialState_def emptyForm_def)
  from tags_distinct_nonempty [of demoBackend
      "[TagEnter [0x61], TagEnter [0x61], TagEnter [], TagEnter [0x62], TagRemove [0x63]]"
      "[0x61]" "addTag [0x61] initialState"]
    tags_distinct_nonempty [of demoBackend "[]" "[0x63]" initialState]
    tags_distinct_nonempty [of demoBackend "[]" "[0x61]" initialState]
    mem absent run
  show ?thesis by metis
qed

subsection \<open>Submitting the form\<close>

lemma addPassword_complete:
  "title (newPassword s) \<noteq> [] \<Longrightarrow> username (newPassword s) \<noteq> [] \<Longrightarrow>
   password (newPassword s) \<noteq> [] \<Longrightarrow> key (newPassword s) \<noteq> [] \<Longrightarrow>
   \<exists>rest. new_calls s (addPassword be s) =
            Invoke ''add_password'' (RequestArg (newPassword s)) # rest \<and>
          ''add_password'' \<notin> cmd ` set rest"
  by (simp add: addPassword_def js_not_def new_calls_def loadPasswords_invoked resetForm_def
      addLog_def called_def Let_def split: sum.splits)

lemma addPassword_incomplete:
  "title (newPassword s) = [] \<or> username (newPassword s) = [] \<or>
   password (newPassword s) = [] \<or> key (newPassword s) = [] \<Longrightarrow>
   addPassword be s =
     addLog [0x6DFB, 0x52A0, 0x5BC6, 0x7801, 0x5931, 0x8D25, 0x3A, 0x20,
             0x7F3A, 0x5C11, 0x5FC5, 0x586B, 0x5B57, 0x6BB5]
       (s\<lparr>error := [0x8BF7, 0x586B, 0x5199, 0x6240, 0x6709, 0x5FC5, 0x586B, 0x5B57, 0x6BB5]\<rparr>)"
  by (simp add: addPassword_def js_not_def)

lemma add_invalid:
  "title request = [] \<or> username request = [] \<or> password request = [] \<or> key request = [] \<Longrightarrow>
   add env request m = (Inl ValidationError, m)"
  by (simp add: add_def validate_request_def)

text \<open>
  Claim C4. The backend's \<open>add\<close> answers a request with an empty required field with
  \<open>ValidationError\<close> and leaves the backends as they are. The component calls
  \<open>add_password\<close> if and only if title, user name, password and key of the form are all
  non-empty, and it passes the form as the request, so a request it sends passes the
  validation. Otherwise it makes no call, and stores the missing-field message as the
  error, leaving the list and the form as they are.
\<close>

theorem addPassword_required_fields:
  "(title request = [] \<or> username request = [] \<or> password request = [] \<or> key request = []
      \<longrightarrow> add env request m = (Inl ValidationError, m)) \<and>
   (''add_password'' \<in> cmd ` set (new_calls s (addPassword be s))
      \<longleftrightarrow> title (newPassword s) \<noteq> [] \<and> username (newPassword s) \<noteq> [] \<and>
          password (newPassword s) \<noteq> [] \<and> key (newPassword s) \<noteq> []) \<and>
   (''add_password'' \<in> cmd ` set (new_calls s (addPassword be s))
      \<longrightarrow> hd (new_calls s (addPassword be s)) =
            Invoke ''add_password'' (RequestArg (newPassword s)) \<and>
          validate_request (newPassword s) = Inr ()) \<and>
   (title (newPassword s) = [] \<or> username (newPassword s) = [] \<or>
    password (newPassword s) = [] \<or> key (newPassword s) = []
      \<longrightarrow> new_calls s (addPassword be s) = [] \<and>
          error (addPassword be s) =
            [0x8BF7, 0x586B, 0x5199, 0x6240, 0x6709, 0x5FC5, 0x586B, 0x5B57, 0x6BB5] \<and>
          passwords (addPassword be s) = passwords s \<and>
          newPassword (addPassword be s) = newPassword s)"
proof (cases "title (newPassword s) = [] \<or> username (newPassword s) = [] \<or>
    password (newPassword s) = [] \<or> key (newPassword s) = []")
  case True
  from addPassword_incomplete [OF True, of be]
  have "new_calls s (addPassword be s) = []"
    "error (addPassword be s) =
       [0x8BF7, 0x586B, 0x5199, 0x6240, 0x6709, 0x5FC5, 0x586B, 0x5B57, 0x6BB5]"
    "passwords (addPassword be s) = passwords s"
    "newPassword (addPassword be s) = newPassword s"
    by (simp_all add: addLog_def new_calls_def push_def)
  with True add_invalid [of request env m] show ?thesis by auto
next
  case False
  with addPassword_complete [of s be]
  obtain rest where "new_calls s (addPassword be s) =
      Invoke ''add_password'' (RequestArg (newPassword s)) # rest"
    by auto
  with False add_invalid [of request env m] show ?thesis
    by (auto simp: validate_request_def)
qed

theorem addPassword_required_fields_witness:
  "add demoEnv emptyForm demoManager = (Inl ValidationError, demoManager) \<and>
   new_calls filledState (addPassword demoBackend filledState) =
     [Invoke ''add_password'' (RequestArg filledForm),
      Invoke ''get_all_passwords_from_storage'' (StorageTargetArg (ascii ''local''))] \<and>
   validate_request (newPassword filledState) = Inr () \<and>
   new_calls initialState (addPassword demoBackend initialState) = [] \<and>
   error (addPassword demoBackend initialState) =
     [0x8BF7, 0x586B, 0x5199, 0x6240, 0x6709, 0x5FC5, 0x586B, 0x5B57, 0x6BB5]"
proof -
  have filled: "title (newPassword filledState) \<noteq> [] \<and> username (newPassword filledState) \<noteq> [] \<and>
      password (newPassword filledState) \<noteq> [] \<and> key (newPassword filledState) \<noteq> []"
    by (simp add: filledState_def filledForm_def initialState_def ascii_def)
  have empty: "title (newPassword initialState) = []"
    by (simp add: initialState_def emptyForm_def)
  have calls: "new_calls filledState (addPassword demoBackend filledState) =
     [Invoke ''add_password'' (RequestArg filledForm),
      Invoke ''get_all_passwords_from_storage'' (StorageTargetArg (ascii ''local''))]"
    using filled
    by (simp add: addPassword_def js_not_def new_calls_def loadPasswords_invoked resetForm_def
        addLog_def called_def Let_def demoBackend_def filledState_def initialState_def)
  from addPassword_required_fields [of emptyForm demoEnv demoManager filledState demoBackend]
    filled
  have "add demoEnv emptyForm demoManager = (Inl ValidationError, demoManager) \<and>
      validate_request (newPassword filledState) = Inr ()"
    by (simp add: emptyForm_def)
  moreover
  from addPassword_required_fields [of emptyForm demoEnv demoManager initialState demoBackend]
    empty
  have "new_calls initialState (addPassword demoBackend initialState) = [] \<and>
      error (addPassword demoBackend initialState) =
        [0x8BF7, 0x586B, 0x5199, 0x6240, 0x6709, 0x5FC5, 0x586B, 0x5B57, 0x6BB5]"
    by blast
  ultimately show ?thesis using calls by simp
qed

subsection \<open>The commands the front end calls\<close>

lemma ui_commands_in_surface: "set ui_commands \<subseteq> set spec_command_surface"
  by (simp add: ui_commands_def spec_command_surface_def)

lemma step_invoked:
  assumes "\<forall>i \<in> set (invoked s). cmd i \<in> set ui_commands"
  shows "\<forall>i \<in> set (invoked (step be ev s)). cmd i \<in> set ui_commands"
proof (cases ev)
  case Mounted
  with assms show ?thesis
    by (auto simp add: initializeApp_def loadPasswords_invoked addLog_def called_def Let_def
        ui_commands_def split: sum.splits)
next
  case SearchEnter
  with assms show ?thesis
    by (auto simp add: handleSearch_def loadPasswords_invoked addLog_def called_def Let_def
        ui_commands_def split: sum.splits)
next
  case SearchClear
  with assms show ?thesis
    by (auto simp add: handleSearch_def loadPasswords_invoked addLog_def called_def Let_def
        ui_commands_def split: sum.splits)
next
  case (View pid)
  with assms show ?thesis
    by (auto simp add: decryptPasswordFunc_def called_def Let_def ui_commands_def
        split: sum.splits option.splits)
next
  case (Delete pid c)
  with assms show ?thesis
    by (auto simp add: deletePassword_def loadPasswords_invoked called_def Let_def
        ui_commands_def split: sum.splits)
next
  case SubmitForm
  with assms show ?thesis
    by (auto simp add: addPassword_def loadPasswords_invoked resetForm_def addLog_def
        called_def Let_def ui_commands_def split: sum.splits)
next
  case Generate
  with assms show ?thesis
    by (auto simp add: generatePassword_def called_def Let_def ui_commands_def
        split: sum.splits)
qed (use assms in \<open>simp_all add: addTag_def removeTag_def Let_def\<close>)

lemma run_invoked:
  "\<forall>i \<in> set (invoked s). cmd i \<in> set ui_commands \<Longrightarrow>
   \<forall>i \<in> set (invoked (run be evs s)). cmd i \<in> set ui_commands"
proof (induction evs arbitrary: s)
  case Nil
  then show ?case by simp
next
  case (Cons ev evs)
  from step_invoked [OF Cons.prems]
  have "\<forall>i \<in> set (invoked (step be ev s)). cmd i \<in> set ui_commands" .
  from Cons.IH [OF this] show ?case by simp
qed

lemma greet_invoked:
  "invoked_App (greet abe a) = invoked_App a @ [Invoke ''greet'' (NameArg (name a))] \<or>
   invoked_App (greet abe a) =
     invoked_App a @ [Invoke ''greet'' (NameArg (name a)), Invoke ''fetch_data'' NoArgs]"
  by (simp add: greet_def Let_def split: sum.splits)

text \<open>
  Claim C6, as stated, fails: \<open>greet\<close> of \<open>App.vue\<close> calls the command \<open>greet\<close>, which is
  not among the fifteen commands of the specification, whatever the backend answers.
\<close>

theorem greet_outside_command_surface:
  "Invoke ''greet'' (NameArg []) \<in> set (invoked_App (greet offlineAppBackend initialApp)) \<and>
   ''greet'' \<notin> set spec_command_surface"
  by (simp add: greet_def Let_def offlineAppBackend_def initialApp_def spec_command_surface_def)

text \<open>
  Claim C6, amended. Every command the password-manager component calls, after any
  sequence of events from its initial state, is one of seven commands, all of them among
  the fifteen of the specification. \<open>greet\<close> of \<open>App.vue\<close> calls \<open>greet\<close> and, when that
  resolves, \<open>fetch_data\<close>; neither is among the fifteen.
\<close>

theorem invoked_in_command_surface:
  "(\<forall>i \<in> set (invoked (run be evs initialState)).
      cmd i \<in> set ui_commands \<and> cmd i \<in> set spec_command_surface) \<and>
   (invoked_App (greet abe a) = invoked_App a @ [Invoke ''greet'' (NameArg (name a))] \<or>
    invoked_App (greet abe a) =
      invoked_App a @ [Invoke ''greet'' (NameArg (name a)), Invoke ''fetch_data'' NoArgs]) \<and>
   ''greet'' \<notin> set spec_command_surface \<and> ''fetch_data'' \<notin> set spec_command_surface"
proof -
  have "\<forall>i \<in> set (invoked initialState). cmd i \<in> set ui_commands"
    by (simp add: initialState_def)
  from run_invoked [OF this, of be evs] ui_commands_in_surface
  have "\<forall>i \<in> set (invoked (run be evs initialState)).
      cmd i \<in> set ui_commands \<and> cmd i \<in> set spec_command_surface"
    by blast
  moreover have "''greet'' \<notin> set spec_command_surface" "''fetch_data'' \<notin> set spec_command_surface"
    by (simp_all add: spec_command_surface_def)
  ultimately show ?thesis using greet_invoked [of abe a] by simp
qed

theorem invoked_in_command_surface_witness:
  "invoked (run demoBackend [Mounted, SearchInput [0x61], SearchEnter] initialState) =
     [Invoke ''initialize_manager'' NoArgs,
      Invoke ''get_all_passwords_from_storage'' (StorageTargetArg (ascii ''local'')),
      Invoke ''search_passwords'' (QueryArg [0x61])] \<and>
   cmd (Invoke ''search_passwords'' (QueryArg [0x61])) \<in> set spec_command_surface"
proof -
  have calls: "invoked (run demoBackend [Mounted, SearchInput [0x61], SearchEnter] initialState) =
     [Invoke ''initialize_manager'' NoArgs,
      Invoke ''get_all_passwords_from_storage'' (StorageTargetArg (ascii ''local'')),
      Invoke ''search_passwords'' (QueryArg [0x61])]"
    by (simp add: initializeApp_def handleSearch_def loadPasswords_def addLog_def called_def
        Let_def js_not_def trim_def js_whitespace_def demoBackend_def initialState_def)
  from invoked_in_command_surface
    [of demoBackend "[Mounted, SearchInput [0x61], SearchEnter]"]
  have "\<forall>i \<in> set (invoked (run demoBackend [Mounted, SearchInput [0x61], SearchEnter]
      initialState)). cmd i \<in> set spec_command_surface"
    by blast
  with calls show ?thesis by simp
qed

subsection \<open>The shape of the exchanged snapshot\<close>

text \<open>
  Claim C5, as stated, fails: the document the component receives from
  \<open>get_all_passwords_from_storage\<close> has no field \<open>entries\<close>, its metadata has no field
  \<open>entry_count\<close>, and a password has no field \<open>encrypted_secret\<close>.
\<close>

theorem snapshot_shape_not_as_specified:
  "\<not> (field_names StorageData_interface = [''metadata'', ''entries''] \<and>
      field_names StorageMetadata_interface = [''version'', ''last_sync'', ''entry_count''] \<and>
      field_type Password_interface ''encrypted_secret'' = Some (TInterface ''EncryptedData''))"
  by (simp add: field_names_def StorageData_interface_def)

text \<open>
  Claim C5, amended. The document has two fields: \<open>metadata\<close>, an object with the fields
  \<open>version\<close>, \<open>last_sync\<close> and \<open>password_count\<close>, and \<open>passwords\<close>, the sequence of
  passwords, each of which stores its encrypted secret under \<open>encrypted_password\<close>.
  \<open>loadPasswords\<close> displays the field \<open>passwords\<close> of the document it receives.
\<close>

theorem snapshot_shape:
  "field_names StorageData_interface = [''metadata'', ''passwords''] \<and>
   field_type StorageData_interface ''metadata'' = Some (TInterface ''StorageMetadata'') \<and>
   field_type StorageData_interface ''passwords'' = Some (TArray (TInterface ''Password'')) \<and>
   field_names StorageMetadata_interface = [''version'', ''last_sync'', ''password_count''] \<and>
   field_type Password_interface ''encrypted_password'' = Some (TInterface ''EncryptedData'') \<and>
   field_names EncryptedData_interface = [''ciphertext'', ''nonce'', ''salt''] \<and>
   ''entries'' \<notin> set (field_names StorageData_interface) \<and>
   ''entry_count'' \<notin> set (field_names StorageMetadata_interface) \<and>
   ''encrypted_secret'' \<notin> set (field_names Password_interface) \<and>
   passwords (loadPasswords be s) =
     (case get_all_passwords_from_storage be (invoked s) (ascii ''local'') of
        Inr d \<Rightarrow> StorageData.passwords d
      | Inl e \<Rightarrow> [])"
  by (simp add: field_names_def field_type_def StorageData_interface_def
      StorageMetadata_interface_def Password_interface_def EncryptedData_interface_def
      loadPasswords_def called_def Let_def split: sum.splits)

section \<open>Properties of the backend\<close>

subsection \<open>Merging by priority\<close>

lemma overwrite_ids: "entry_id ` set (overwrite e v) = insert (entry_id e) (entry_id ` set v)"
  by (induction v) auto

lemma overwrite_distinct:
  "distinct (map entry_id v) \<Longrightarrow> distinct (map entry_id (overwrite e v))"
proof (induction v)
  case Nil
  then show ?case by simp
next
  case (Cons x xs)
  then have "distinct (map entry_id (overwrite e xs))" by simp
  with Cons.prems overwrite_ids [of e xs] show ?case by auto
qed

lemma overwrite_mem:
  "distinct (map entry_id v) \<Longrightarrow>
   x \<in> set (overwrite e v) \<longleftrightarrow> x = e \<or> (x \<in> set v \<and> entry_id x \<noteq> entry_id e)"
  by (induction v) (auto simp: image_iff)

text \<open>The merged view never holds two entries with one id.\<close>

lemma merge_entries_distinct:
  "distinct (map entry_id v) \<Longrightarrow> distinct (map entry_id (merge_entries v es))"
  unfolding merge_entries_def
  by (induction es arbitrary: v) (simp_all add: overwrite_distinct)

text \<open>
  After a backend is merged in, the view holds all its entries, and of the entries it
  held before those whose id the backend does not have.
\<close>

lemma merge_entries_mem:
  "distinct (map entry_id v) \<Longrightarrow> distinct (map entry_id es) \<Longrightarrow>
   x \<in> set (merge_entries v es) \<longleftrightarrow>
     x \<in> set es \<or> (x \<in> set v \<and> entry_id x \<notin> entry_id ` set es)"
  unfolding merge_entries_def
proof (induction es arbitrary: v)
  case Nil
  then show ?case by simp
next
  case (Cons e es)
  from Cons.prems
  have d: "distinct (map entry_id (overwrite e v))" "distinct (map entry_id es)"
    and fresh: "entry_id e \<notin> entry_id ` set es"
    by (simp_all add: overwrite_distinct)
  from Cons.IH [OF d] overwrite_mem [OF Cons.prems(1), of x e] fresh
  show ?case by auto
qed

text \<open>
  Claim C2. Let the local backend (first in the priority order) and the remote backend
  (second) both be enabled and loadable, and let both hold an entry with the id \<open>X\<close>, the
  ids within the remote snapshot being unique. Then \<open>get_all\<close> for the wild card returns a
  view that holds the remote backend's entry and no other entry with the id \<open>X\<close>. Nothing
  is assumed about the \<open>updated_at\<close> of the two entries, and \<open>get_all\<close> is a function of
  the backends' contents only, so earlier calls have no influence.
\<close>

theorem get_all_later_backend_wins:
  assumes "m Local = Some A" and "m Remote = Some B"
    and "enabled A" and "enabled B"
    and "load A = Inr sa" and "load B = Inr sb"
    and "ea \<in> set (entries sa)" and "eb \<in> set (entries sb)"
    and "entry_id ea = X" and "entry_id eb = X"
    and "distinct (map entry_id (entries sb))"
  shows "\<exists>es. get_all All_targets m = Inr es \<and> eb \<in> set es \<and>
              (\<forall>e \<in> set es. entry_id e = X \<longrightarrow> e = eb)"
proof -
  let ?v = "merge_entries [] (entries sa)"
  let ?es = "merge_entries ?v (entries sb)"
  have en: "enabled_storages m = [A, B]"
    using assms(1-4) by (simp add: enabled_storages_def priority_order_def List.map_filter_simps)
  have res: "get_all All_targets m = Inr ?es"
    using assms(5,6) by (simp add: get_all_def en)
  have dv: "distinct (map entry_id ?v)"
    by (rule merge_entries_distinct) simp
  note mem = merge_entries_mem [OF dv assms(11)]
  have "eb \<in> set ?es" using assms(8) by (simp add: mem)
  moreover have "e = eb" if "e \<in> set ?es" "entry_id e = X" for e
  proof -
    from that(1) have "e \<in> set (entries sb) \<or> entry_id e \<notin> entry_id ` set (entries sb)"
      by (auto simp: mem)
    moreover have "entry_id e \<in> entry_id ` set (entries sb)"
      using assms(8,10) that(2) by (metis imageI)
    ultimately have "e \<in> set (entries sb)" by blast
    with assms(8,10,11) that(2) show ?thesis
      by (metis distinct_map inj_onD)
  qed
  ultimately show ?thesis using res by blast
qed

theorem get_all_later_backend_wins_witness:
  "entry_updated_at remoteEntry < entry_updated_at localEntry \<and>
   (\<exists>es. get_all All_targets demoManager = Inr es \<and> remoteEntry \<in> set es \<and>
         localEntry \<notin> set es)"
proof -
  have older: "entry_updated_at remoteEntry < entry_updated_at localEntry"
    by (simp add: remoteEntry_def localEntry_def)
  have differ: "localEntry \<noteq> remoteEntry"
    by (simp add: remoteEntry_def localEntry_def)
  have same: "entry_id localEntry = ascii ''X''"
    by (simp add: localEntry_def)
  have "\<exists>es. get_all All_targets demoManager = Inr es \<and> remoteEntry \<in> set es \<and>
              (\<forall>e \<in> set es. entry_id e = ascii ''X'' \<longrightarrow> e = remoteEntry)"
  proof (rule get_all_later_backend_wins
      [where A = localStorage and B = remoteStorage and sa = "persisted localStorage"
         and sb = "persisted remoteStorage" and ea = localEntry])
    show "demoManager Local = Some localStorage"
      by (simp add: demoManager_def)
    show "demoManager Remote = Some remoteStorage"
      by (simp add: demoManager_def)
    show "enabled localStorage"
      by (simp add: localStorage_def)
    show "enabled remoteStorage"
      by (simp add: remoteStorage_def)
    show "load localStorage = Inr (persisted localStorage)"
      by (simp add: load_def localStorage_def)
    show "load remoteStorage = Inr (persisted remoteStorage)"
      by (simp add: load_def remoteStorage_def)
    show "localEntry \<in> set (entries (persisted localStorage))"
      by (simp add: localStorage_def)
    show "remoteEntry \<in> set (entries (persisted remoteStorage))"
      by (simp add: remoteStorage_def)
    show "entry_id localEntry = ascii ''X''"
      by (simp add: localEntry_def)
    show "entry_id remoteEntry = ascii ''X''"
      by (simp add: remoteEntry_def)
    show "distinct (map entry_id (entries (persisted remoteStorage)))"
      by (simp add: remoteStorage_def remoteEntry_def remoteOnlyEntry_def ascii_def)
  qed
  with differ same have "\<exists>es. get_all All_targets demoManager = Inr es \<and>
      remoteEntry \<in> set es \<and> localEntry \<notin> set es"
    by blast
  with older show ?thesis by simp
qed

subsection \<open>Synchronisation keeps what only the target has\<close>

lemma sync_entry_keeps:
  "x \<in> set v \<Longrightarrow> entry_id x \<noteq> entry_id e \<Longrightarrow> x \<in> set (sync_entry e v)"
  by (induction v) auto

lemma sync_fold_keeps:
  "x \<in> set v \<Longrightarrow> entry_id x \<notin> entry_id ` set es \<Longrightarrow>
   x \<in> set (foldl (\<lambda>v e. sync_entry e v) v es)"
proof (induction es arbitrary: v)
  case Nil
  then show ?case by simp
next
  case (Cons e es)
  from Cons.prems have "x \<in> set (sync_entry e v)"
    by (auto intro: sync_entry_keeps)
  moreover from Cons.prems have "entry_id x \<notin> entry_id ` set es"
    by simp
  ultimately show ?case using Cons.IH by simp
qed

text \<open>
  Claim C3. Let \<open>e\<close> be an entry that the backend \<open>to\<close> has persisted and whose id no entry
  of the backend \<open>from\<close> has. After \<open>sync_storages(from, to)\<close>, whether it succeeded or
  failed, \<open>to\<close> is still configured and \<open>e\<close> itself is among its persisted entries. When
  both backends are enabled and neither load nor save fails, the sync succeeds.
\<close>

theorem sync_storages_keeps_to_only:
  assumes "m src = Some a" and "m dst = Some b"
    and "e \<in> set (entries (persisted b))"
    and "entry_id e \<notin> entry_id ` set (entries (persisted a))"
  shows "(\<exists>b'. snd (sync_storages src dst m) dst = Some b' \<and>
               e \<in> set (entries (persisted b'))) \<and>
         (enabled a \<and> enabled b \<and> load_failure a = None \<and> load_failure b = None \<and>
          save_failure b = None \<longrightarrow> (\<exists>r. fst (sync_storages src dst m) = Inr r))"
  using assms sync_fold_keeps [OF assms(3,4)]
  by (auto simp: sync_storages_def load_def save_def Let_def split: option.splits sum.splits)

theorem sync_storages_keeps_to_only_witness:
  "(\<exists>b'. snd (sync_storages Local Remote demoManager) Remote = Some b' \<and>
         entries (persisted b') = [remoteOnlyEntry, localEntry]) \<and>
   (\<exists>r. fst (sync_storages Local Remote demoManager) = Inr r)"
proof -
  have "(\<exists>b'. snd (sync_storages Local Remote demoManager) Remote = Some b' \<and>
               remoteOnlyEntry \<in> set (entries (persisted b'))) \<and>
         (enabled localStorage \<and> enabled remoteStorage \<and> load_failure localStorage = None \<and>
          load_failure remoteStorage = None \<and> save_failure remoteStorage = None \<longrightarrow>
          (\<exists>r. fst (sync_storages Local Remote demoManager) = Inr r))"
  proof (rule sync_storages_keeps_to_only)
    show "demoManager Local = Some localStorage"
      by (simp add: demoManager_def)
    show "demoManager Remote = Some remoteStorage"
      by (simp add: demoManager_def)
    show "remoteOnlyEntry \<in> set (entries (persisted remoteStorage))"
      by (simp add: remoteStorage_def)
    show "entry_id remoteOnlyEntry \<notin> entry_id ` set (entries (persisted localStorage))"
      by (simp add: localStorage_def localEntry_def remoteOnlyEntry_def ascii_def)
  qed
  moreover have "enabled localStorage \<and> enabled remoteStorage \<and>
      load_failure localStorage = None \<and> load_failure remoteStorage = None \<and>
      save_failure remoteStorage = None"
    by (simp add: localStorage_def remoteStorage_def)
  moreover have "\<And>b'. snd (sync_storages Local Remote demoManager) Remote = Some b' \<Longrightarrow>
      entries (persisted b') = [remoteOnlyEntry, localEntry]"
    by (auto simp add: sync_storages_def load_def save_def Let_def demoManager_def
        localStorage_def remoteStorage_def localEntry_def remoteEntry_def remoteOnlyEntry_def
        ascii_def)
  ultimately show ?thesis by blast
qed

subsection \<open>Encryption round trip\<close>

lemma length_block_bytes: "length (block_bytes w) = 16"
  by (simp add: block_bytes_def)

lemma length_concat_blocks:
  "length (concat (map (\<lambda>i. block_bytes (f i)) xs)) = 16 * length xs"
  by (induction xs) (simp_all add: length_block_bytes)

lemma length_keystream: "length (keystream c k iv n) = n"
proof -
  have "n \<le> 16 * ((n + 15) div 16)" by arith
  then show ?thesis
    by (simp add: keystream_def length_concat_blocks)
qed

lemma xor_bytes_twice: "length ks = length p \<Longrightarrow> xor_bytes (xor_bytes p ks) ks = p"
proof (induction p arbitrary: ks)
  case Nil
  then show ?case by (simp add: xor_bytes_def)
next
  case (Cons x p)
  then obtain k ks' where ks: "ks = k # ks'" and len: "length ks' = length p"
    by (cases ks) auto
  from Cons.IH [OF len] have "xor_bytes (xor_bytes p ks') ks' = p" .
  then show ?case
    by (simp add: ks xor_bytes_def xor.assoc)
qed

lemma length_xor_bytes: "length (xor_bytes xs ys) = min (length xs) (length ys)"
  by (simp add: xor_bytes_def)

text \<open>
  Claim C1. For every plaintext \<open>p\<close> and every master key \<open>k\<close> (so for every valid one),
  whatever the random bytes that make the nonce, and for every block cipher and tag hash
  that the construction is run with, \<open>decrypt\<close> of \<open>encrypt\<close> of \<open>p\<close> under \<open>k\<close> returns
  exactly \<open>p\<close>.
\<close>

theorem decrypt_encrypt_round_trip:
  "decrypt c k (encrypt c k random p) = Inr p"
proof -
  let ?nonce = "map random [0..<12]"
  let ?ks = "keystream c (derived_key k) ?nonce (length p)"
  let ?ct = "xor_bytes p ?ks"
  let ?tag = "auth_tag c (derived_key k) ?nonce ?ct"
  have enc: "encrypt c k random p =
      \<lparr> blob_ciphertext = ?ct @ ?tag, blob_nonce = ?nonce, blob_salt = key_salt k \<rparr>"
    by (simp add: encrypt_def Let_def)
  have lct: "length ?ct = length p"
    by (simp add: length_xor_bytes length_keystream)
  have ltag: "length ?tag = 16"
    by (simp add: auth_tag_def length_block_bytes)
  have n: "length (?ct @ ?tag) - 16 = length p"
    using lct ltag by simp
  have tk: "take (length p) (?ct @ ?tag) = ?ct" "drop (length p) (?ct @ ?tag) = ?tag"
    using lct by simp_all
  have inv: "xor_bytes ?ct ?ks = p"
    by (rule xor_bytes_twice) (simp add: length_keystream)
  have "decrypt c k \<lparr> blob_ciphertext = ?ct @ ?tag, blob_nonce = ?nonce, blob_salt = key_salt k \<rparr>
      = Inr p"
    unfolding decrypt_def Let_def EncryptedBlob.select_convs n tk
    using ltag lct inv by simp
  with enc show ?thesis by simp
qed

theorem decrypt_encrypt_round_trip_witness:
  "decrypt demoCipher demoKey (encrypt demoCipher demoKey demoRandom [0x70, 0x40, 0x73, 0x73, 0x31])
     = Inr [0x70, 0x40, 0x73, 0x73, 0x31]"
  by (rule decrypt_encrypt_round_trip)

subsection \<open>The generator keeps its contract\<close>

lemma set_allowed: "set (allowed cfg cs) = set cs - set (excluded cfg)"
  by (auto simp: allowed_def)

lemma pick_mem: "xs \<noteq> [] \<Longrightarrow> pick random i xs \<in> set xs"
  by (simp add: pick_def)

lemma length_insert_at: "length (insert_at r x ys) = Suc (length ys)"
  by (simp add: insert_at_def)

lemma set_insert_at: "set (insert_at r x ys) = insert x (set ys)"
proof -
  have "set (take k ys) \<union> set (drop k ys) = set ys" for k
    by (metis append_take_drop_id set_append)
  then show ?thesis
    by (simp add: insert_at_def)
qed

lemma length_shuffle: "length (shuffle random xs) = length xs"
  by (induction xs) (simp_all add: length_insert_at)

lemma set_shuffle: "set (shuffle random xs) = set xs"
  by (induction xs) (simp_all add: set_insert_at)

lemma required_pick_length: "length (required_pick random i b cs) = (if b then 1 else 0)"
  by (simp add: required_pick_def)

lemma required_pick_subset:
  "(b \<Longrightarrow> allowed cfg cs \<noteq> []) \<Longrightarrow>
   set (required_pick random i b (allowed cfg cs)) \<subseteq> set cs - set (excluded cfg)"
  using pick_mem [of "allowed cfg cs" random i]
  by (auto simp: required_pick_def set_allowed)

lemma required_pick_hits:
  "b \<Longrightarrow> allowed cfg cs \<noteq> [] \<Longrightarrow>
   set (required_pick random i b (allowed cfg cs)) \<inter> set cs \<noteq> {}"
  using pick_mem [of "allowed cfg cs" random i]
  by (auto simp: required_pick_def set_allowed)

lemma generate_conforms:
  assumes "generate cls random cfg = Inr pw"
  shows "conforms cls cfg pw"
proof -
  let ?n = "nat (length' cfg)"
  let ?rc = "(if require_uppercase cfg then 1 else 0) + (if require_lowercase cfg then 1 else 0) +
            (if require_numbers cfg then 1 else (0::nat)) + (if require_symbols cfg then 1 else 0)"
  let ?u = "required_pick random 0 (require_uppercase cfg) (allowed cfg (uppercase_chars cls))"
  let ?l = "required_pick random 1 (require_lowercase cfg) (allowed cfg (lowercase_chars cls))"
  let ?d = "required_pick random 2 (require_numbers cfg) (allowed cfg (number_chars cls))"
  let ?s = "required_pick random 3 (require_symbols cfg) (allowed cfg (symbol_chars cls))"
  let ?f = "map (\<lambda>i. pick random (4 + i) (pool cls cfg)) [0..<?n - ?rc]"
  from assms have ok: "\<not> length' cfg < 1" "\<not> ?n < ?rc"
    "require_uppercase cfg \<Longrightarrow> allowed cfg (uppercase_chars cls) \<noteq> []"
    "require_lowercase cfg \<Longrightarrow> allowed cfg (lowercase_chars cls) \<noteq> []"
    "require_numbers cfg \<Longrightarrow> allowed cfg (number_chars cls) \<noteq> []"
    "require_symbols cfg \<Longrightarrow> allowed cfg (symbol_chars cls) \<noteq> []"
    "pool cls cfg \<noteq> []"
    and pw: "pw = shuffle (\<lambda>i. random (?n + 4 + i)) (?u @ ?l @ ?d @ ?s @ ?f)"
    by (auto simp: generate_def assemble_def Let_def split: if_splits)
  have set_pw: "set pw = set ?u \<union> set ?l \<union> set ?d \<union> set ?s \<union> set ?f"
    by (simp add: pw set_shuffle Un_assoc)
  have "length pw = ?rc + (?n - ?rc)"
    by (simp add: pw length_shuffle required_pick_length)
  with ok(1,2) have len: "int (length pw) = length' cfg"
    by simp
  have f: "set ?f \<subseteq> - set (excluded cfg)"
    using pick_mem [OF ok(7), of random] by (auto simp: pool_def set_allowed)
  have excl: "set pw \<inter> set (excluded cfg) = {}"
    using required_pick_subset [of "require_uppercase cfg" cfg "uppercase_chars cls" random 0]
      required_pick_subset [of "require_lowercase cfg" cfg "lowercase_chars cls" random 1]
      required_pick_subset [of "require_numbers cfg" cfg "number_chars cls" random 2]
      required_pick_subset [of "require_symbols cfg" cfg "symbol_chars cls" random 3]
      ok(3-6) f
    unfolding set_pw by blast
  have up: "set pw \<inter> set (uppercase_chars cls) \<noteq> {}" if "require_uppercase cfg"
    using required_pick_hits [OF that ok(3) [OF that], of random 0] unfolding set_pw by blast
  have lo: "set pw \<inter> set (lowercase_chars cls) \<noteq> {}" if "require_lowercase cfg"
    using required_pick_hits [OF that ok(4) [OF that], of random 1] unfolding set_pw by blast
  have nu: "set pw \<inter> set (number_chars cls) \<noteq> {}" if "require_numbers cfg"
    using required_pick_hits [OF that ok(5) [OF that], of random 2] unfolding set_pw by blast
  have sy: "set pw \<inter> set (symbol_chars cls) \<noteq> {}" if "require_symbols cfg"
    using required_pick_hits [OF that ok(6) [OF that], of random 3] unfolding set_pw by blast
  from len excl up lo nu sy show ?thesis
    unfolding conforms_def by blast
qed

lemma generate_error: "generate cls random cfg = Inl e \<Longrightarrow> e = ValidationError"
  by (auto simp: generate_def assemble_def Let_def split: if_splits)

text \<open>
  Claim C7. For every configuration, every password that \<open>generate_password\<close> returns
  has the requested length, holds a character of each required class and holds no excluded
  character. The only error of the generator is \<open>ValidationError\<close>, and it is the answer
  whenever no string meets the constraints. A configuration that passes the generator's
  checks gets a password.
\<close>

theorem generate_password_contract:
  "(generate cls random cfg = Inr pw \<longrightarrow>
      int (length pw) = length' cfg \<and>
      (require_uppercase cfg \<longrightarrow> (\<exists>ch \<in> set pw. ch \<in> set (uppercase_chars cls))) \<and>
      (require_lowercase cfg \<longrightarrow> (\<exists>ch \<in> set pw. ch \<in> set (lowercase_chars cls))) \<and>
      (require_numbers cfg \<longrightarrow> (\<exists>ch \<in> set pw. ch \<in> set (number_chars cls))) \<and>
      (require_symbols cfg \<longrightarrow> (\<exists>ch \<in> set pw. ch \<in> set (symbol_chars cls))) \<and>
      (\<forall>ch \<in> set pw. ch \<notin> set (excluded cfg))) \<and>
   (generate cls random cfg = Inl e \<longrightarrow> e = ValidationError) \<and>
   ((\<nexists>pw'. conforms cls cfg pw') \<longrightarrow> generate cls random cfg = Inl ValidationError) \<and>
   (1 \<le> length' cfg \<and>
    (if require_uppercase cfg then 1 else 0) + (if require_lowercase cfg then 1 else 0) +
    (if require_numbers cfg then 1 else 0) + (if require_symbols cfg then 1 else 0) \<le> length' cfg \<and>
    (require_uppercase cfg \<longrightarrow> set (uppercase_chars cls) - set (excluded cfg) \<noteq> {}) \<and>
    (require_lowercase cfg \<longrightarrow> set (lowercase_chars cls) - set (excluded cfg) \<noteq> {}) \<and>
    (require_numbers cfg \<longrightarrow> set (number_chars cls) - set (excluded cfg) \<noteq> {}) \<and>
    (require_symbols cfg \<longrightarrow> set (symbol_chars cls) - set (excluded cfg) \<noteq> {}) \<and>
    set (uppercase_chars cls @ lowercase_chars cls @ number_chars cls @ symbol_chars cls)
      - set (excluded cfg) \<noteq> {}
    \<longrightarrow> (\<exists>pw'. generate cls random cfg = Inr pw'))"
proof -
  have a: "int (length pw) = length' cfg \<and>
      (require_uppercase cfg \<longrightarrow> (\<exists>ch \<in> set pw. ch \<in> set (uppercase_chars cls))) \<and>
      (require_lowercase cfg \<longrightarrow> (\<exists>ch \<in> set pw. ch \<in> set (lowercase_chars cls))) \<and>
      (require_numbers cfg \<longrightarrow> (\<exists>ch \<in> set pw. ch \<in> set (number_chars cls))) \<and>
      (require_symbols cfg \<longrightarrow> (\<exists>ch \<in> set pw. ch \<in> set (symbol_chars cls))) \<and>
      (\<forall>ch \<in> set pw. ch \<notin> set (excluded cfg))"
    if "generate cls random cfg = Inr pw"
    using generate_conforms [OF that] unfolding conforms_def by blast
  have b: "generate cls random cfg = Inl ValidationError" if "\<nexists>pw'. conforms cls cfg pw'"
  proof (cases "generate cls random cfg")
    case (Inl e)
    with generate_error [OF Inl] show ?thesis by simp
  next
    case (Inr pw')
    from generate_conforms [OF Inr] that show ?thesis by blast
  qed
  have c: "\<exists>pw'. generate cls random cfg = Inr pw'"
    if "1 \<le> length' cfg \<and>
    (if require_uppercase cfg then 1 else 0) + (if require_lowercase cfg then 1 else 0) +
    (if require_numbers cfg then 1 else 0) + (if require_symbols cfg then 1 else 0) \<le> length' cfg \<and>
    (require_uppercase cfg \<longrightarrow> set (uppercase_chars cls) - set (excluded cfg) \<noteq> {}) \<and>
    (require_lowercase cfg \<longrightarrow> set (lowercase_chars cls) - set (excluded cfg) \<noteq> {}) \<and>
    (require_numbers cfg \<longrightarrow> set (number_chars cls) - set (excluded cfg) \<noteq> {}) \<and>
    (require_symbols cfg \<longrightarrow> set (symbol_chars cls) - set (excluded cfg) \<noteq> {}) \<and>
    set (uppercase_chars cls @ lowercase_chars cls @ number_chars cls @ symbol_chars cls)
      - set (excluded cfg) \<noteq> {}"
  proof -
    have ne: "allowed cfg cs \<noteq> []" if "set cs - set (excluded cfg) \<noteq> {}" for cs
      using that set_allowed [of cfg cs] by (metis set_empty)
    from that have "\<not> nat (length' cfg) <
        (if require_uppercase cfg then 1 else 0) + (if require_lowercase cfg then 1 else 0) +
        (if require_numbers cfg then 1 else (0::nat)) + (if require_symbols cfg then 1 else 0)"
      by (auto split: if_splits)
    moreover from that ne have "pool cls cfg \<noteq> []"
      unfolding pool_def by blast
    moreover from that have "\<not> length' cfg < 1" by simp
    ultimately show ?thesis
      using that ne by (simp add: generate_def assemble_def Let_def)
  qed
  from a b c generate_error [of cls random cfg e] show ?thesis by blast
qed

theorem generate_password_contract_witness:
  "generate asciiClasses demoNumbers scenarioConfig =
     Inr [88, 114, 61, 55, 50, 36, 42, 104, 109, 99, 35, 119] \<and>
   int (length [88, 114, 61, 55, 50, 36, 42, 104, 109, 99, 35, 119 :: 16 word]) =
     length' scenarioConfig \<and>
   (\<exists>ch \<in> set [88, 114, 61, 55, 50, 36, 42, 104, 109, 99, 35, 119].
      ch \<in> set (symbol_chars asciiClasses)) \<and>
   0x30 \<notin> set [88, 114, 61, 55, 50, 36, 42, 104, 109, 99, 35, 119 :: 16 word] \<and>
   0x4F \<notin> set [88, 114, 61, 55, 50, 36, 42, 104, 109, 99, 35, 119 :: 16 word] \<and>
   generate asciiClasses demoNumbers impossibleConfig = Inl ValidationError"
proof -
  have run: "generate asciiClasses demoNumbers scenarioConfig =
      Inr [88, 114, 61, 55, 50, 36, 42, 104, 109, 99, 35, 119]"
    by code_simp
  have req: "require_symbols scenarioConfig"
    by (simp add: scenarioConfig_def)
  have exc: "excluded scenarioConfig = [0x30, 0x4F]"
    by (simp add: excluded_def scenarioConfig_def ascii_def)
  have fail: "generate asciiClasses demoNumbers impossibleConfig = Inl ValidationError"
    by code_simp
  from generate_password_contract
    [of asciiClasses demoNumbers scenarioConfig "[88, 114, 61, 55, 50, 36, 42, 104, 109, 99, 35, 119]"]
    run req
  have "int (length [88, 114, 61, 55, 50, 36, 42, 104, 109, 99, 35, 119 :: 16 word]) =
      length' scenarioConfig \<and>
    (\<exists>ch \<in> set [88, 114, 61, 55, 50, 36, 42, 104, 109, 99, 35, 119].
      ch \<in> set (symbol_chars asciiClasses)) \<and>
    (\<forall>ch \<in> set [88, 114, 61, 55, 50, 36, 42, 104, 109, 99, 35, 119].
      ch \<notin> set (excluded scenarioConfig))"
    by blast
  with exc run fail show ?thesis by simp
qed

end
